theory Spec2Isabelle
  imports
    Main
    "HOL-Library.AList"
    "HOL-Library.Extended_Nat"
    "HOL-Library.Multiset"
begin

section \<open>Chat-Book: the presence and message-delivery core\<close>

text \<open>
  The development embeds the WebSocket handlers of the server's route module
  (\<^verbatim>\<open>wss.on('connection')\<close>: the \<^verbatim>\<open>message\<close> and \<^verbatim>\<open>close\<close> handlers and
  \<^verbatim>\<open>broadcastToAll\<close>), the message operations of \<^verbatim>\<open>DatabaseStorage\<close> in
  \<^verbatim>\<open>storage.ts\<close> and \<^verbatim>\<open>messageSchema\<close> of the shared schema.

  Each listener is \<^verbatim>\<open>async\<close> and suspends at its single \<^verbatim>\<open>await storage...\<close>; the
  emitter does not wait for it, so another listener can start while the store statement
  is pending. The model has both views. A listener is split at its \<^verbatim>\<open>await\<close> into the
  part that runs at once (\<open>begin_message\<close>, \<open>begin_close\<close>) and the continuation that runs
  when the store statement settles (\<open>resume\<close>); \<open>srun\<close> runs a schedule of arrivals
  and settlements in any order. \<open>on_message\<close> and \<open>on_close\<close> are a listener run to
  completion with nothing in between, and \<open>run\<close> is the schedule in which no two
  listeners overlap. What the environment decides for a step (whether the store
  statement completes, the clock, the generated row id, which transports are open) is
  an explicit argument of the step.
\<close>

subsection \<open>Data model\<close>

type_synonym conn = nat
  \<comment> \<open>the identity of a \<^verbatim>\<open>WebSocket\<close> object; \<^verbatim>\<open>userWs === ws\<close> is equality of these\<close>

type_synonym time = nat

text \<open>A row of the \<^verbatim>\<open>messages\<close> table (\<^verbatim>\<open>typeof messages.$inferSelect\<close>). Only \<^verbatim>\<open>id\<close>,
  \<^verbatim>\<open>senderId\<close>, \<^verbatim>\<open>receiverId\<close> and \<^verbatim>\<open>content\<close> are declared \<^verbatim>\<open>notNull\<close>; a nullable column is
  an option. A string is the list of its code units, so \<open>length\<close> is what
  \<^verbatim>\<open>.length\<close> counts.\<close>

record message =
  id_m :: string
  senderId :: string
  receiverId :: string
  content :: string
  messageType :: "string option"
  imageUrl :: "string option"
  isRead :: "bool option"
  createdAt :: "time option"

text \<open>\<^verbatim>\<open>InsertMessage\<close>, the output type of \<^verbatim>\<open>messageSchema\<close>: the table's insert
  columns without \<^verbatim>\<open>id\<close>, \<^verbatim>\<open>createdAt\<close> and \<^verbatim>\<open>isRead\<close>.\<close>

record insert_message =
  ins_senderId :: string
  ins_receiverId :: string
  ins_content :: string
  ins_messageType :: string
  ins_imageUrl :: "string option"

text \<open>A row of the \<^verbatim>\<open>users\<close> table, with the columns the handlers write
  (\<^verbatim>\<open>updateUserOnlineStatus\<close>); the other columns are neither read nor written here.\<close>

record user =
  id_u :: string
  isOnline :: "bool option"
  lastSeen :: "time option"
  updatedAt :: "time option"

text \<open>A JSON value as the validator sees it: \<open>JOther\<close> stands for a number, an
  array or an object, which every field schema below rejects alike.\<close>

datatype jsval = JUndefined | JNull | JBool bool | JStr string | JOther

text \<open>The object \<^verbatim>\<open>message.data\<close> of a \<^verbatim>\<open>chat_message\<close> event before validation;
  keys the schema does not know are stripped by the validator and are not kept.\<close>

record raw_payload =
  raw_senderId :: jsval
  raw_receiverId :: jsval
  raw_content :: jsval
  raw_messageType :: jsval
  raw_imageUrl :: jsval

text \<open>The inbound frame after \<^verbatim>\<open>JSON.parse\<close>, by the value of its \<^verbatim>\<open>type\<close> field.
  A field that is absent is \<open>None\<close>. \<open>Unparseable\<close> is a frame on which
  \<^verbatim>\<open>JSON.parse\<close> (or reading \<^verbatim>\<open>message.type\<close>) throws; \<open>Unknown\<close> is a frame with
  any other \<^verbatim>\<open>type\<close>. The payload of \<open>ChatMessage\<close> is \<open>None\<close> when
  \<^verbatim>\<open>message.data\<close> is not an object.\<close>

datatype inbound =
    Unparseable
  | Auth "string option"
  | ChatMessage "raw_payload option"
  | UpdateLastSeen "string option"
  | Typing (typ_senderId: "string option") (typ_receiverId: "string option")
      (typ_isTyping: "bool option")
  | Unknown

text \<open>The events the server sends, by their \<^verbatim>\<open>type\<close>.\<close>

datatype outbound =
    NewMessage message
  | MessageSent message
  | UserOnline string
  | UserOffline string
  | UserStatusUpdate string time bool
  | TypingEvent "string option" "bool option"

datatype error =
    ParseError
  | ValidationError "string list"
  | StoreError

datatype store_op =
    SetOnlineStatus string bool
  | InsertMessage message

text \<open>What a handler does to the outside, in the order it does it: a
  \<^verbatim>\<open>ws.send\<close> on a connection, a store statement that completed, a
  \<^verbatim>\<open>console.error\<close> of the \<^verbatim>\<open>catch\<close> block, and a rejection nobody catches (the
  \<^verbatim>\<open>close\<close> handler has no \<^verbatim>\<open>try\<close>).\<close>

datatype effect =
    Send conn outbound
  | StoreWrite store_op
  | LogError error
  | Unhandled error

text \<open>The module-level \<^verbatim>\<open>connectedUsers\<close> map and the two tables. A JavaScript
  \<^verbatim>\<open>Map\<close> iterates in insertion order, and \<^verbatim>\<open>set\<close> on a present key keeps its
  place: an association list with \<open>AList.update\<close>, \<open>AList.delete\<close> and
  \<open>map_of\<close>.\<close>

record state =
  connectedUsers :: "(string \<times> conn) list"
  users :: "user list"
  messages :: "message list"

text \<open>What the environment decides for one handler invocation: \<open>db_ok\<close>, whether the
  store is reachable and executes the one statement the handler awaits (when it is not,
  the statement throws); \<open>now\<close>, the clock; \<open>new_id\<close>, the generated row id; \<open>is_open\<close>,
  the connections whose \<^verbatim>\<open>readyState\<close> is \<^verbatim>\<open>OPEN\<close>.\<close>

record env =
  db_ok :: bool
  now :: time
  new_id :: string
  is_open :: "conn \<Rightarrow> bool"

subsection \<open>storage.ts\<close>

definition updateUserOnlineStatus :: "time \<Rightarrow> string \<Rightarrow> bool \<Rightarrow> user list \<Rightarrow> user list" where
  "updateUserOnlineStatus t uid b us =
     map (\<lambda>u. if id_u u = uid
               then u\<lparr>isOnline := Some b, lastSeen := Some t, updatedAt := Some t\<rparr>
               else u) us"

text \<open>\<^verbatim>\<open>createMessage\<close>: the row the insert returns. The table's defaults fill the
  omitted columns: a generated id, \<^verbatim>\<open>is_read\<close> false, \<^verbatim>\<open>created_at\<close> now. The columns
  \<^verbatim>\<open>sender_id\<close> and \<^verbatim>\<open>receiver_id\<close> are declared
  \<^verbatim>\<open>references(() => users.id)\<close>: the store rejects a row whose sender or receiver
  is not the id of a row of \<^verbatim>\<open>users\<close>, and the insert throws.\<close>

definition new_row :: "string \<Rightarrow> time \<Rightarrow> insert_message \<Rightarrow> message" where
  "new_row i t m =
     \<lparr>id_m = i, senderId = ins_senderId m, receiverId = ins_receiverId m,
      content = ins_content m, messageType = Some (ins_messageType m),
      imageUrl = ins_imageUrl m, isRead = Some False, createdAt = Some t\<rparr>"

definition references_users :: "insert_message \<Rightarrow> user list \<Rightarrow> bool" where
  "references_users m us \<longleftrightarrow>
     ins_senderId m \<in> set (map id_u us) \<and> ins_receiverId m \<in> set (map id_u us)"

definition createMessage :: "env \<Rightarrow> insert_message \<Rightarrow> user list \<Rightarrow> message list \<Rightarrow> error + message \<times> message list" where
  "createMessage e m us ms =
     (if db_ok e \<and> references_users m us
      then (let newMessage = new_row (new_id e) (now e) m in Inr (newMessage, ms @ [newMessage]))
      else Inl StoreError)"

definition between_users :: "string \<Rightarrow> string \<Rightarrow> message \<Rightarrow> bool" where
  "between_users userId1 userId2 m \<longleftrightarrow>
     (senderId m = userId1 \<and> receiverId m = userId2) \<or>
     (senderId m = userId2 \<and> receiverId m = userId1)"

text \<open>The sort key of \<^verbatim>\<open>orderBy(asc(messages.createdAt))\<close>: ascending, a null
  \<^verbatim>\<open>created_at\<close> after every time (PostgreSQL's default for ascending order). Rows
  with equal keys stay in table order.\<close>

definition created_key :: "message \<Rightarrow> enat" where
  "created_key m = (case createdAt m of None \<Rightarrow> \<infinity> | Some t \<Rightarrow> enat t)"

definition getMessagesBetweenUsers :: "string \<Rightarrow> string \<Rightarrow> nat option \<Rightarrow> message list \<Rightarrow> message list" where
  "getMessagesBetweenUsers userId1 userId2 limit ms =
     take (case limit of None \<Rightarrow> 50 | Some n \<Rightarrow> n)
       (sort_key created_key (filter (between_users userId1 userId2) ms))"

definition unread_from :: "string \<Rightarrow> string \<Rightarrow> message \<Rightarrow> bool" where
  "unread_from sId rId m \<longleftrightarrow> senderId m = sId \<and> receiverId m = rId \<and> isRead m = Some False"

definition markMessagesAsRead :: "string \<Rightarrow> string \<Rightarrow> message list \<Rightarrow> message list" where
  "markMessagesAsRead sId rId ms =
     map (\<lambda>m. if unread_from sId rId m then m\<lparr>isRead := Some True\<rparr> else m) ms"

subsection \<open>messageSchema\<close>

text \<open>Each field schema yields the issues it raises (the field's name) and, when
  there are none, the parsed value. \<^verbatim>\<open>senderId\<close> and \<^verbatim>\<open>receiverId\<close> are the
  table's \<^verbatim>\<open>varchar\<close> columns: any string, the empty one too.\<close>

definition z_string :: "jsval \<Rightarrow> string option" where
  "z_string v = (case v of JStr s \<Rightarrow> Some s | _ \<Rightarrow> None)"

definition z_content :: "jsval \<Rightarrow> string option" where
  "z_content v =
     (case v of JStr s \<Rightarrow> (if 1 \<le> length s \<and> length s \<le> 1000 then Some s else None)
      | _ \<Rightarrow> None)"

definition z_messageType :: "jsval \<Rightarrow> string option" where
  "z_messageType v =
     (case v of JUndefined \<Rightarrow> Some ''text''
      | JStr s \<Rightarrow> (if s = ''text'' \<or> s = ''image'' then Some s else None)
      | _ \<Rightarrow> None)"

definition z_imageUrl :: "jsval \<Rightarrow> string option option" where
  "z_imageUrl v =
     (case v of JUndefined \<Rightarrow> Some None | JStr s \<Rightarrow> Some (Some s) | _ \<Rightarrow> None)"

definition issue :: "string \<Rightarrow> 'a option \<Rightarrow> string list" where
  "issue field r = (case r of None \<Rightarrow> [field] | Some _ \<Rightarrow> [])"

definition messageSchema_issues :: "raw_payload \<Rightarrow> string list" where
  "messageSchema_issues d =
     issue ''senderId'' (z_string (raw_senderId d)) @
     issue ''receiverId'' (z_string (raw_receiverId d)) @
     issue ''content'' (z_content (raw_content d)) @
     issue ''messageType'' (z_messageType (raw_messageType d)) @
     issue ''imageUrl'' (z_imageUrl (raw_imageUrl d))"

definition messageSchema_parse :: "raw_payload option \<Rightarrow> error + insert_message" where
  "messageSchema_parse data =
     (case data of
        None \<Rightarrow> Inl (ValidationError [])
      | Some d \<Rightarrow>
          (case (z_string (raw_senderId d), z_string (raw_receiverId d),
                 z_content (raw_content d), z_messageType (raw_messageType d),
                 z_imageUrl (raw_imageUrl d)) of
             (Some s, Some r, Some c, Some t, Some u) \<Rightarrow>
               Inr \<lparr>ins_senderId = s, ins_receiverId = r, ins_content = c,
                    ins_messageType = t, ins_imageUrl = u\<rparr>
           | _ \<Rightarrow> Inl (ValidationError (messageSchema_issues d))))"

subsection \<open>The WebSocket handlers\<close>

text \<open>\<^verbatim>\<open>broadcastToAll\<close>: every value of the map, in its order, that is open.\<close>

definition broadcastToAll :: "(conn \<Rightarrow> bool) \<Rightarrow> (string \<times> conn) list \<Rightarrow> outbound \<Rightarrow> effect list" where
  "broadcastToAll opn cu msg = map (\<lambda>ws. Send ws msg) (filter opn (map snd cu))"

text \<open>\<^verbatim>\<open>connectedUsers.get(k)\<close> followed by the test
  \<^verbatim>\<open>recipientWs && recipientWs.readyState === WebSocket.OPEN\<close>, and the send.\<close>

definition send_if_open :: "(conn \<Rightarrow> bool) \<Rightarrow> conn option \<Rightarrow> outbound \<Rightarrow> effect list" where
  "send_if_open opn recipientWs msg =
     (case recipientWs of None \<Rightarrow> []
      | Some rws \<Rightarrow> (if opn rws then [Send rws msg] else []))"

text \<open>The \<^verbatim>\<open>auth\<close> branch. \<^verbatim>\<open>if (userId)\<close>: an absent or empty string is falsy.
  The map is set before the \<^verbatim>\<open>await\<close>; when the store write throws, the \<^verbatim>\<open>catch\<close>
  logs and the broadcast is not reached.\<close>

definition on_auth :: "env \<Rightarrow> conn \<Rightarrow> string option \<Rightarrow> state \<Rightarrow> state \<times> effect list" where
  "on_auth e ws userId s =
     (case userId of
        None \<Rightarrow> (s, [])
      | Some u \<Rightarrow>
          (if u = [] then (s, [])
           else (let s1 = s\<lparr>connectedUsers := AList.update u ws (connectedUsers s)\<rparr> in
                 if db_ok e
                 then (let s2 = s1\<lparr>users := updateUserOnlineStatus (now e) u True (users s1)\<rparr>
                       in (s2, StoreWrite (SetOnlineStatus u True) #
                               broadcastToAll (is_open e) (connectedUsers s2) (UserOnline u)))
                 else (s1, [LogError StoreError]))))"

definition on_chat_message :: "env \<Rightarrow> conn \<Rightarrow> raw_payload option \<Rightarrow> state \<Rightarrow> state \<times> effect list" where
  "on_chat_message e ws data s =
     (case messageSchema_parse data of
        Inl err \<Rightarrow> (s, [LogError err])
      | Inr messageData \<Rightarrow>
          (case createMessage e messageData (users s) (messages s) of
             Inl err \<Rightarrow> (s, [LogError err])
           | Inr (savedMessage, ms) \<Rightarrow>
               (s\<lparr>messages := ms\<rparr>,
                StoreWrite (InsertMessage savedMessage) #
                send_if_open (is_open e)
                  (map_of (connectedUsers s) (ins_receiverId messageData))
                  (NewMessage savedMessage) @
                send_if_open (is_open e) (Some ws) (MessageSent savedMessage))))"

definition on_update_last_seen :: "env \<Rightarrow> string option \<Rightarrow> state \<Rightarrow> state \<times> effect list" where
  "on_update_last_seen e userId s =
     (case userId of
        None \<Rightarrow> (s, [])
      | Some u \<Rightarrow>
          (if u = [] then (s, [])
           else if db_ok e
           then (let s1 = s\<lparr>users := updateUserOnlineStatus (now e) u True (users s)\<rparr>
                 in (s1, StoreWrite (SetOnlineStatus u True) #
                         broadcastToAll (is_open e) (connectedUsers s1)
                           (UserStatusUpdate u (now e) True)))
           else (s, [LogError StoreError])))"

definition on_typing :: "env \<Rightarrow> string option \<Rightarrow> string option \<Rightarrow> bool option \<Rightarrow> state \<Rightarrow> state \<times> effect list" where
  "on_typing e sId rId isTyping s =
     (s, send_if_open (is_open e)
           (case rId of None \<Rightarrow> None | Some r \<Rightarrow> map_of (connectedUsers s) r)
           (TypingEvent sId isTyping))"

text \<open>\<^verbatim>\<open>ws.on('message', ...)\<close> of the connection \<open>ws\<close>, run to completion: the
  store statement settles and the continuation runs before anything else happens.\<close>

fun on_message :: "env \<Rightarrow> conn \<Rightarrow> inbound \<Rightarrow> state \<Rightarrow> state \<times> effect list" where
  "on_message e ws Unparseable s = (s, [LogError ParseError])"
| "on_message e ws (Auth userId) s = on_auth e ws userId s"
| "on_message e ws (ChatMessage data) s = on_chat_message e ws data s"
| "on_message e ws (UpdateLastSeen userId) s = on_update_last_seen e userId s"
| "on_message e ws (Typing sId rId isTyping) s = on_typing e sId rId isTyping s"
| "on_message e ws Unknown s = (s, [])"

text \<open>\<^verbatim>\<open>ws.on('close', ...)\<close>, run to completion: the loop stops at the first entry
  whose value is \<open>ws\<close>. When the event fires the transport of \<open>ws\<close> is closed. A store failure
  here is not caught: the entry is already deleted and nothing is broadcast.\<close>

definition on_close :: "env \<Rightarrow> conn \<Rightarrow> state \<Rightarrow> state \<times> effect list" where
  "on_close e ws s =
     (case find (\<lambda>(userId, userWs). userWs = ws) (connectedUsers s) of
        None \<Rightarrow> (s, [])
      | Some (userId, userWs) \<Rightarrow>
          (let s1 = s\<lparr>connectedUsers := AList.delete userId (connectedUsers s)\<rparr> in
           if db_ok e
           then (let s2 = s1\<lparr>users := updateUserOnlineStatus (now e) userId False (users s1)\<rparr>
                 in (s2, StoreWrite (SetOnlineStatus userId False) #
                         broadcastToAll ((is_open e)(ws := False)) (connectedUsers s2)
                           (UserOffline userId)))
           else (s1, [Unhandled StoreError])))"

subsection \<open>The listeners split at their await\<close>

text \<open>A listener suspended at its \<^verbatim>\<open>await\<close>, with what its continuation needs: the
  \<open>auth\<close> branch waiting for \<^verbatim>\<open>updateUserOnlineStatus(userId, true)\<close>, the
  \<open>chat_message\<close> branch waiting for \<^verbatim>\<open>createMessage\<close>, the \<open>update_last_seen\<close>
  branch, and the \<open>close\<close> listener waiting for
  \<^verbatim>\<open>updateUserOnlineStatus(userId, false)\<close>.\<close>

datatype pending =
    AuthWrite conn string
  | ChatInsert conn insert_message
  | LastSeenWrite string
  | CloseWrite conn string

text \<open>The part of the \<open>message\<close> listener that runs when the frame arrives, up to the
  \<^verbatim>\<open>await\<close>: the new state, what it did, and the continuation it left, if any.\<close>

fun begin_message :: "env \<Rightarrow> conn \<Rightarrow> inbound \<Rightarrow> state \<Rightarrow> state \<times> effect list \<times> pending option" where
  "begin_message e ws Unparseable s = (s, [LogError ParseError], None)"
| "begin_message e ws (Auth userId) s =
     (case userId of
        None \<Rightarrow> (s, [], None)
      | Some u \<Rightarrow>
          (if u = [] then (s, [], None)
           else (s\<lparr>connectedUsers := AList.update u ws (connectedUsers s)\<rparr>, [],
                 Some (AuthWrite ws u))))"
| "begin_message e ws (ChatMessage data) s =
     (case messageSchema_parse data of
        Inl err \<Rightarrow> (s, [LogError err], None)
      | Inr messageData \<Rightarrow> (s, [], Some (ChatInsert ws messageData)))"
| "begin_message e ws (UpdateLastSeen userId) s =
     (case userId of
        None \<Rightarrow> (s, [], None)
      | Some u \<Rightarrow> (if u = [] then (s, [], None) else (s, [], Some (LastSeenWrite u))))"
| "begin_message e ws (Typing sId rId isTyping) s =
     (s, send_if_open (is_open e)
           (case rId of None \<Rightarrow> None | Some r \<Rightarrow> map_of (connectedUsers s) r)
           (TypingEvent sId isTyping), None)"
| "begin_message e ws Unknown s = (s, [], None)"

definition begin_close :: "conn \<Rightarrow> state \<Rightarrow> state \<times> pending option" where
  "begin_close ws s =
     (case find (\<lambda>(userId, userWs). userWs = ws) (connectedUsers s) of
        None \<Rightarrow> (s, None)
      | Some (userId, userWs) \<Rightarrow>
          (s\<lparr>connectedUsers := AList.delete userId (connectedUsers s)\<rparr>,
           Some (CloseWrite ws userId)))"

text \<open>The continuation: the store statement settles (it completes or throws) and the
  rest of the listener runs on the state as it is then.\<close>

fun resume :: "env \<Rightarrow> pending \<Rightarrow> state \<Rightarrow> state \<times> effect list" where
  "resume e (AuthWrite ws u) s =
     (if db_ok e
      then (let s2 = s\<lparr>users := updateUserOnlineStatus (now e) u True (users s)\<rparr>
            in (s2, StoreWrite (SetOnlineStatus u True) #
                    broadcastToAll (is_open e) (connectedUsers s2) (UserOnline u)))
      else (s, [LogError StoreError]))"
| "resume e (ChatInsert ws messageData) s =
     (case createMessage e messageData (users s) (messages s) of
        Inl err \<Rightarrow> (s, [LogError err])
      | Inr (savedMessage, ms) \<Rightarrow>
          (s\<lparr>messages := ms\<rparr>,
           StoreWrite (InsertMessage savedMessage) #
           send_if_open (is_open e)
             (map_of (connectedUsers s) (ins_receiverId messageData))
             (NewMessage savedMessage) @
           send_if_open (is_open e) (Some ws) (MessageSent savedMessage)))"
| "resume e (LastSeenWrite u) s =
     (if db_ok e
      then (let s1 = s\<lparr>users := updateUserOnlineStatus (now e) u True (users s)\<rparr>
            in (s1, StoreWrite (SetOnlineStatus u True) #
                    broadcastToAll (is_open e) (connectedUsers s1)
                      (UserStatusUpdate u (now e) True)))
      else (s, [LogError StoreError]))"
| "resume e (CloseWrite ws u) s =
     (if db_ok e
      then (let s2 = s\<lparr>users := updateUserOnlineStatus (now e) u False (users s)\<rparr>
            in (s2, StoreWrite (SetOnlineStatus u False) #
                    broadcastToAll ((is_open e)(ws := False)) (connectedUsers s2)
                      (UserOffline u)))
      else (s, [Unhandled StoreError]))"

text \<open>A schedule: a frame arrives on a connection, a connection closes, or the store
  statement of the \<open>i\<close>-th suspended listener settles. The suspended listeners are kept
  in the order they suspended.\<close>

datatype sched = Arrive conn inbound | Closed conn | Settle nat

fun sstep :: "env \<Rightarrow> sched \<Rightarrow> state \<times> pending list \<Rightarrow> (state \<times> pending list) \<times> effect list" where
  "sstep e (Arrive ws m) (s, ps) =
     (case begin_message e ws m s of
        (s1, fx, None) \<Rightarrow> ((s1, ps), fx)
      | (s1, fx, Some p) \<Rightarrow> ((s1, ps @ [p]), fx))"
| "sstep e (Closed ws) (s, ps) =
     (case begin_close ws s of
        (s1, None) \<Rightarrow> ((s1, ps), [])
      | (s1, Some p) \<Rightarrow> ((s1, ps @ [p]), []))"
| "sstep e (Settle i) (s, ps) =
     (if i < length ps
      then (case resume e (ps ! i) s of (s1, fx) \<Rightarrow> ((s1, take i ps @ drop (Suc i) ps), fx))
      else ((s, ps), []))"

fun srun :: "(env \<times> sched) list \<Rightarrow> state \<times> pending list \<Rightarrow> (state \<times> pending list) \<times> effect list" where
  "srun [] c = (c, [])"
| "srun ((e, ev) # rest) c =
     (case sstep e ev c of (c1, fx1) \<Rightarrow> (case srun rest c1 of (c2, fx2) \<Rightarrow> (c2, fx1 @ fx2)))"

subsection \<open>Sequences of events without overlap\<close>

text \<open>Each listener runs to completion before the next event is handled.\<close>

datatype event = Message conn inbound | Close conn

fun step :: "env \<Rightarrow> event \<Rightarrow> state \<Rightarrow> state \<times> effect list" where
  "step e (Message ws m) s = on_message e ws m s"
| "step e (Close ws) s = on_close e ws s"

fun run :: "(env \<times> event) list \<Rightarrow> state \<Rightarrow> state \<times> effect list" where
  "run [] s = (s, [])"
| "run ((e, ev) # rest) s =
     (let (s1, fx1) = step e ev s; (s2, fx2) = run rest s1 in (s2, fx1 @ fx2))"

text \<open>The schedule of a sequence of events without overlap: each arrival is followed
  at once by the settlement of the listener it suspended.\<close>

fun sequential :: "(env \<times> event) list \<Rightarrow> (env \<times> sched) list" where
  "sequential [] = []"
| "sequential ((e, Message ws m) # rest) = (e, Arrive ws m) # (e, Settle 0) # sequential rest"
| "sequential ((e, Close ws) # rest) = (e, Closed ws) # (e, Settle 0) # sequential rest"

text \<open>Projections of a trace.\<close>

fun sends :: "effect list \<Rightarrow> (conn \<times> outbound) list" where
  "sends [] = []"
| "sends (Send c m # fx) = (c, m) # sends fx"
| "sends (_ # fx) = sends fx"

fun writes :: "effect list \<Rightarrow> store_op list" where
  "writes [] = []"
| "writes (StoreWrite w # fx) = w # writes fx"
| "writes (_ # fx) = writes fx"

fun errors :: "effect list \<Rightarrow> error list" where
  "errors [] = []"
| "errors (LogError x # fx) = x # errors fx"
| "errors (Unhandled x # fx) = x # errors fx"
| "errors (_ # fx) = errors fx"

definition new_message_events :: "effect list \<Rightarrow> (conn \<times> message) list" where
  "new_message_events fx = [(c, m). Send c (NewMessage m) \<leftarrow> fx]"

definition message_sent_events :: "effect list \<Rightarrow> (conn \<times> message) list" where
  "message_sent_events fx = [(c, m). Send c (MessageSent m) \<leftarrow> fx]"

definition user_online_events :: "effect list \<Rightarrow> (conn \<times> string) list" where
  "user_online_events fx = [(c, u). Send c (UserOnline u) \<leftarrow> fx]"

definition user_offline_events :: "effect list \<Rightarrow> (conn \<times> string) list" where
  "user_offline_events fx = [(c, u). Send c (UserOffline u) \<leftarrow> fx]"

text \<open>A handler result that left the state as it was, sent nothing and wrote nothing
  to the store (it may have logged).\<close>

definition ignored :: "state \<Rightarrow> state \<times> effect list \<Rightarrow> bool" where
  "ignored s r \<longleftrightarrow> fst r = s \<and> sends (snd r) = [] \<and> writes (snd r) = []"

section \<open>Properties\<close>

subsection \<open>The store's message operations\<close>

lemma between_users_sym: "between_users a b = between_users b a"
  by (auto simp: between_users_def fun_eq_iff)

lemma mset_take_drop: "mset xs = mset (take n xs) + mset (drop n xs)"
  by (metis append_take_drop_id mset_append)

lemma sorted_take_le_drop:
  assumes "sorted (map f xs)" "r \<in> set (take n xs)" "m \<in> set (drop n xs)"
  shows "f r \<le> f m"
proof -
  have "sorted (map f (take n xs) @ map f (drop n xs))"
    using assms(1) by (metis append_take_drop_id map_append)
  then show ?thesis using assms(2,3) by (auto simp: sorted_append)
qed

text \<open>
  Claim C6. For every pair of users A and B, \<open>getMessagesBetweenUsers\<close> returns the
  messages exchanged between them, in either direction, in ascending order of creation
  time, at most 50 of them when no limit is given, and the result is the same for
  (A, B) and (B, A). The rows returned are rows of the conversation (as a multiset), and
  every row of the conversation left out by the limit is no older than any row returned.
\<close>

theorem getMessagesBetweenUsers_ordered_symmetric:
  "getMessagesBetweenUsers a b limit ms = getMessagesBetweenUsers b a limit ms
    \<and> sorted (map created_key (getMessagesBetweenUsers a b limit ms))
    \<and> getMessagesBetweenUsers a b None ms = getMessagesBetweenUsers a b (Some 50) ms
    \<and> length (getMessagesBetweenUsers a b None ms)
        = min 50 (length (filter (between_users a b) ms))
    \<and> mset (getMessagesBetweenUsers a b limit ms) \<subseteq># mset (filter (between_users a b) ms)
    \<and> (\<forall>r \<in> set (getMessagesBetweenUsers a b limit ms).
         \<forall>m \<in># mset (filter (between_users a b) ms) - mset (getMessagesBetweenUsers a b limit ms).
           created_key r \<le> created_key m)"
proof -
  define conv where "conv = filter (between_users a b) ms"
  let ?n = "case limit of None \<Rightarrow> 50 | Some n \<Rightarrow> n"
  let ?xs = "sort_key created_key conv"
  have res: "getMessagesBetweenUsers a b limit ms = take ?n ?xs"
    by (simp add: getMessagesBetweenUsers_def conv_def)
  have sym: "getMessagesBetweenUsers a b limit ms = getMessagesBetweenUsers b a limit ms"
    by (simp add: getMessagesBetweenUsers_def between_users_sym [of a b])
  have srt: "sorted (map created_key ?xs)" by simp
  have s1: "sorted (map created_key (take ?n ?xs))"
    using srt by (simp add: take_map [symmetric] sorted_wrt_take del: sorted_sort_key)
  have dflt: "getMessagesBetweenUsers a b None ms = getMessagesBetweenUsers a b (Some 50) ms"
    by (simp add: getMessagesBetweenUsers_def)
  have len: "length (getMessagesBetweenUsers a b None ms) = min 50 (length conv)"
    by (simp add: getMessagesBetweenUsers_def conv_def min.commute)
  have split: "mset conv = mset (take ?n ?xs) + mset (drop ?n ?xs)"
    using mset_take_drop [of ?xs ?n] by simp
  have sub: "mset (take ?n ?xs) \<subseteq># mset conv"
    by (simp add: split)
  have rest: "mset conv - mset (take ?n ?xs) = mset (drop ?n ?xs)"
    by (simp add: split)
  have ord: "\<forall>r \<in> set (take ?n ?xs). \<forall>m \<in># mset conv - mset (take ?n ?xs).
      created_key r \<le> created_key m"
    unfolding rest using sorted_take_le_drop [OF srt] by auto
  show ?thesis
    using sym s1 dflt len sub ord unfolding res conv_def by blast
qed

theorem getMessagesBetweenUsers_ordered_symmetric_witness:
  "getMessagesBetweenUsers ''a'' ''b'' (Some 1)
     [new_row ''1'' 5 \<lparr>ins_senderId = ''a'', ins_receiverId = ''b'', ins_content = ''hi'',
                       ins_messageType = ''text'', ins_imageUrl = None\<rparr>,
      new_row ''2'' 3 \<lparr>ins_senderId = ''b'', ins_receiverId = ''a'', ins_content = ''yo'',
                       ins_messageType = ''text'', ins_imageUrl = None\<rparr>,
      new_row ''3'' 1 \<lparr>ins_senderId = ''a'', ins_receiverId = ''c'', ins_content = ''no'',
                       ins_messageType = ''text'', ins_imageUrl = None\<rparr>]
   = [new_row ''2'' 3 \<lparr>ins_senderId = ''b'', ins_receiverId = ''a'', ins_content = ''yo'',
                       ins_messageType = ''text'', ins_imageUrl = None\<rparr>]
   \<and> new_row ''1'' 5 \<lparr>ins_senderId = ''a'', ins_receiverId = ''b'', ins_content = ''hi'',
                       ins_messageType = ''text'', ins_imageUrl = None\<rparr>
       \<in># mset (filter (between_users ''a'' ''b'')
     [new_row ''1'' 5 \<lparr>ins_senderId = ''a'', ins_receiverId = ''b'', ins_content = ''hi'',
                       ins_messageType = ''text'', ins_imageUrl = None\<rparr>,
      new_row ''2'' 3 \<lparr>ins_senderId = ''b'', ins_receiverId = ''a'', ins_content = ''yo'',
                       ins_messageType = ''text'', ins_imageUrl = None\<rparr>,
      new_row ''3'' 1 \<lparr>ins_senderId = ''a'', ins_receiverId = ''c'', ins_content = ''no'',
                       ins_messageType = ''text'', ins_imageUrl = None\<rparr>])
        - mset (getMessagesBetweenUsers ''a'' ''b'' (Some 1)
     [new_row ''1'' 5 \<lparr>ins_senderId = ''a'', ins_receiverId = ''b'', ins_content = ''hi'',
                       ins_messageType = ''text'', ins_imageUrl = None\<rparr>,
      new_row ''2'' 3 \<lparr>ins_senderId = ''b'', ins_receiverId = ''a'', ins_content = ''yo'',
                       ins_messageType = ''text'', ins_imageUrl = None\<rparr>,
      new_row ''3'' 1 \<lparr>ins_senderId = ''a'', ins_receiverId = ''c'', ins_content = ''no'',
                       ins_messageType = ''text'', ins_imageUrl = None\<rparr>])
   \<and> created_key (new_row ''2'' 3 \<lparr>ins_senderId = ''b'', ins_receiverId = ''a'',
          ins_content = ''yo'', ins_messageType = ''text'', ins_imageUrl = None\<rparr>)
       \<le> created_key (new_row ''1'' 5 \<lparr>ins_senderId = ''a'', ins_receiverId = ''b'',
          ins_content = ''hi'', ins_messageType = ''text'', ins_imageUrl = None\<rparr>)"
  using getMessagesBetweenUsers_ordered_symmetric [of "''a''" "''b''" "Some 1"
     "[new_row ''1'' 5 \<lparr>ins_senderId = ''a'', ins_receiverId = ''b'', ins_content = ''hi'',
                       ins_messageType = ''text'', ins_imageUrl = None\<rparr>,
      new_row ''2'' 3 \<lparr>ins_senderId = ''b'', ins_receiverId = ''a'', ins_content = ''yo'',
                       ins_messageType = ''text'', ins_imageUrl = None\<rparr>,
      new_row ''3'' 1 \<lparr>ins_senderId = ''a'', ins_receiverId = ''c'', ins_content = ''no'',
                       ins_messageType = ''text'', ins_imageUrl = None\<rparr>]"]
  by (simp add: getMessagesBetweenUsers_def between_users_def created_key_def new_row_def)

text \<open>
  Claim C7. \<open>markMessagesAsRead\<close> with sender B and receiver A sets \<open>isRead\<close> to
  true on exactly the rows from B to A whose \<open>isRead\<close> is false, leaves every other row
  as it is, and applying it a second time changes nothing.
\<close>

theorem markMessagesAsRead_exact_idempotent:
  "length (markMessagesAsRead b a ms) = length ms
   \<and> (\<forall>i < length ms. markMessagesAsRead b a ms ! i =
        (if senderId (ms ! i) = b \<and> receiverId (ms ! i) = a \<and> isRead (ms ! i) = Some False
         then (ms ! i)\<lparr>isRead := Some True\<rparr> else ms ! i))
   \<and> markMessagesAsRead b a (markMessagesAsRead b a ms) = markMessagesAsRead b a ms"
  by (simp add: markMessagesAsRead_def unread_from_def)

theorem markMessagesAsRead_exact_idempotent_witness:
  "markMessagesAsRead ''b'' ''a''
     [new_row ''1'' 5 \<lparr>ins_senderId = ''b'', ins_receiverId = ''a'', ins_content = ''hi'',
                       ins_messageType = ''text'', ins_imageUrl = None\<rparr>,
      new_row ''2'' 6 \<lparr>ins_senderId = ''a'', ins_receiverId = ''b'', ins_content = ''yo'',
                       ins_messageType = ''text'', ins_imageUrl = None\<rparr>] ! 0
   = (new_row ''1'' 5 \<lparr>ins_senderId = ''b'', ins_receiverId = ''a'', ins_content = ''hi'',
                       ins_messageType = ''text'', ins_imageUrl = None\<rparr>)\<lparr>isRead := Some True\<rparr>
   \<and> markMessagesAsRead ''b'' ''a''
     [new_row ''1'' 5 \<lparr>ins_senderId = ''b'', ins_receiverId = ''a'', ins_content = ''hi'',
                       ins_messageType = ''text'', ins_imageUrl = None\<rparr>,
      new_row ''2'' 6 \<lparr>ins_senderId = ''a'', ins_receiverId = ''b'', ins_content = ''yo'',
                       ins_messageType = ''text'', ins_imageUrl = None\<rparr>] ! 1
   = new_row ''2'' 6 \<lparr>ins_senderId = ''a'', ins_receiverId = ''b'', ins_content = ''yo'',
                       ins_messageType = ''text'', ins_imageUrl = None\<rparr>"
  using markMessagesAsRead_exact_idempotent [of "''b''" "''a''"
     "[new_row ''1'' 5 \<lparr>ins_senderId = ''b'', ins_receiverId = ''a'', ins_content = ''hi'',
                       ins_messageType = ''text'', ins_imageUrl = None\<rparr>,
      new_row ''2'' 6 \<lparr>ins_senderId = ''a'', ins_receiverId = ''b'', ins_content = ''yo'',
                       ins_messageType = ''text'', ins_imageUrl = None\<rparr>]"]
  by (simp add: new_row_def)

subsection \<open>Traces\<close>

lemma sends_append: "sends (xs @ ys) = sends xs @ sends ys"
  by (induction xs rule: sends.induct) auto
lemma writes_append: "writes (xs @ ys) = writes xs @ writes ys"
  by (induction xs rule: writes.induct) auto
lemma errors_append: "errors (xs @ ys) = errors xs @ errors ys"
  by (induction xs rule: errors.induct) auto

subsection \<open>The typing relay\<close>

text \<open>
  Claim C8. A typing event never changes the state (nothing is persisted). When the
  receiver is bound to a connection whose transport is open, the only effect is one
  \<open>typing\<close> event with the frame's \<open>senderId\<close> and \<open>isTyping\<close> on that connection; when
  the receiver is not reachable there is no effect at all: no event and no error.
\<close>

theorem typing_relay:
  "fst (on_message e ws (Typing sId rId isTyping) s) = s
   \<and> (\<forall>r rws. rId = Some r \<and> map_of (connectedUsers s) r = Some rws \<and> is_open e rws
        \<longrightarrow> snd (on_message e ws (Typing sId rId isTyping) s) = [Send rws (TypingEvent sId isTyping)])
   \<and> ((\<nexists>r rws. rId = Some r \<and> map_of (connectedUsers s) r = Some rws \<and> is_open e rws)
        \<longrightarrow> snd (on_message e ws (Typing sId rId isTyping) s) = [])"
  by (auto simp: on_typing_def send_if_open_def split: option.splits)

theorem typing_relay_witness:
  "snd (on_message \<lparr>db_ok = True, now = 7, new_id = ''m1'', is_open = (\<lambda>c. c = 2)\<rparr> 1
          (Typing (Some ''alice'') (Some ''bob'') (Some True))
          \<lparr>connectedUsers = [(''alice'', 1), (''bob'', 2)], users = [], messages = []\<rparr>)
     = [Send 2 (TypingEvent (Some ''alice'') (Some True))]
   \<and> snd (on_message \<lparr>db_ok = True, now = 7, new_id = ''m1'', is_open = (\<lambda>c. c = 2)\<rparr> 1
          (Typing (Some ''alice'') (Some ''carol'') (Some True))
          \<lparr>connectedUsers = [(''alice'', 1), (''bob'', 2)], users = [], messages = []\<rparr>)
     = []"
  using typing_relay [of "\<lparr>db_ok = True, now = 7, new_id = ''m1'', is_open = (\<lambda>c. c = 2)\<rparr>" 1
          "Some ''alice''" "Some ''bob''" "Some True"
          "\<lparr>connectedUsers = [(''alice'', 1), (''bob'', 2)], users = [], messages = []\<rparr>"]
        typing_relay [of "\<lparr>db_ok = True, now = 7, new_id = ''m1'', is_open = (\<lambda>c. c = 2)\<rparr>" 1
          "Some ''alice''" "Some ''carol''" "Some True"
          "\<lparr>connectedUsers = [(''alice'', 1), (''bob'', 2)], users = [], messages = []\<rparr>"]
  by simp

subsection \<open>Validation of a chat payload\<close>

lemma messageSchema_parse_Inr_iff:
  "(\<exists>m. messageSchema_parse (Some d) = Inr m) \<longleftrightarrow>
     (\<exists>sid. raw_senderId d = JStr sid) \<and> (\<exists>rid. raw_receiverId d = JStr rid)
     \<and> (\<exists>c. raw_content d = JStr c \<and> 1 \<le> length c \<and> length c \<le> 1000)
     \<and> (raw_messageType d = JUndefined \<or> raw_messageType d = JStr ''text''
          \<or> raw_messageType d = JStr ''image'')
     \<and> (raw_imageUrl d = JUndefined \<or> (\<exists>url. raw_imageUrl d = JStr url))"
  by (auto simp: messageSchema_parse_def z_string_def z_content_def z_messageType_def
        z_imageUrl_def split: jsval.splits option.splits if_splits)

lemma messageSchema_parse_content_rejected:
  assumes "raw_content d = JStr c" and "length c = 0 \<or> 1000 < length c"
  shows "messageSchema_parse (Some d) = Inl (ValidationError (messageSchema_issues d))"
    and "''content'' \<in> set (messageSchema_issues d)"
  using assms
  by (auto simp: messageSchema_parse_def messageSchema_issues_def issue_def z_content_def
        split: option.splits)

lemma on_chat_message_invalid:
  "messageSchema_parse data = Inl err \<Longrightarrow> on_chat_message e ws data s = (s, [LogError err])"
  by (simp add: on_chat_message_def)

text \<open>
  Claim C5. \<open>messageSchema\<close> accepts a payload exactly when its ids are strings, its
  content is a string of length 1 to 1000, its message type is absent, \<open>text\<close> or
  \<open>image\<close> and its image URL is absent or a string: content of length 1 up to exactly
  1000 is accepted, empty content and content of 1001 or more is rejected with an error
  that lists the field. On every validation failure the handler leaves the state as it
  is (no row is persisted) and its only effect is the logged error: nothing is sent to
  the sender or to the receiver.
\<close>

theorem messageSchema_content_bounds:
  "((\<exists>m. messageSchema_parse (Some d) = Inr m) \<longleftrightarrow>
     (\<exists>sid. raw_senderId d = JStr sid) \<and> (\<exists>rid. raw_receiverId d = JStr rid)
     \<and> (\<exists>c. raw_content d = JStr c \<and> 1 \<le> length c \<and> length c \<le> 1000)
     \<and> (raw_messageType d = JUndefined \<or> raw_messageType d = JStr ''text''
          \<or> raw_messageType d = JStr ''image'')
     \<and> (raw_imageUrl d = JUndefined \<or> (\<exists>url. raw_imageUrl d = JStr url)))
   \<and> (\<forall>c. raw_content d = JStr c \<and> (length c = 0 \<or> 1000 < length c) \<longrightarrow>
         messageSchema_parse (Some d) = Inl (ValidationError (messageSchema_issues d))
         \<and> ''content'' \<in> set (messageSchema_issues d))
   \<and> (\<forall>err. messageSchema_parse data = Inl err \<longrightarrow>
         on_message e ws (ChatMessage data) s = (s, [LogError err]))"
  using messageSchema_parse_Inr_iff [of d] messageSchema_parse_content_rejected [of d]
    on_chat_message_invalid [of data _ e ws s]
  by (simp only: on_message.simps) blast

theorem messageSchema_content_bounds_witness:
  "(\<exists>m. messageSchema_parse (Some \<lparr>raw_senderId = JStr ''alice'', raw_receiverId = JStr ''bob'',
        raw_content = JStr (replicate 1000 CHR ''x''), raw_messageType = JUndefined,
        raw_imageUrl = JUndefined\<rparr>) = Inr m)
   \<and> (\<exists>m. messageSchema_parse (Some \<lparr>raw_senderId = JStr ''alice'', raw_receiverId = JStr ''bob'',
        raw_content = JStr ''x'', raw_messageType = JUndefined,
        raw_imageUrl = JUndefined\<rparr>) = Inr m)
   \<and> messageSchema_parse (Some \<lparr>raw_senderId = JStr ''alice'', raw_receiverId = JStr ''bob'',
        raw_content = JStr (replicate 1001 CHR ''x''), raw_messageType = JUndefined,
        raw_imageUrl = JUndefined\<rparr>) = Inl (ValidationError [''content''])
   \<and> messageSchema_parse (Some \<lparr>raw_senderId = JStr ''alice'', raw_receiverId = JStr ''bob'',
        raw_content = JStr [], raw_messageType = JUndefined,
        raw_imageUrl = JUndefined\<rparr>) = Inl (ValidationError [''content''])
   \<and> on_message \<lparr>db_ok = True, now = 7, new_id = ''m1'', is_open = (\<lambda>c. True)\<rparr> 1
        (ChatMessage (Some \<lparr>raw_senderId = JStr ''alice'', raw_receiverId = JStr ''bob'',
           raw_content = JStr [], raw_messageType = JUndefined, raw_imageUrl = JUndefined\<rparr>))
        \<lparr>connectedUsers = [(''alice'', 1), (''bob'', 2)], users = [], messages = []\<rparr>
       = (\<lparr>connectedUsers = [(''alice'', 1), (''bob'', 2)], users = [], messages = []\<rparr>,
          [LogError (ValidationError [''content''])])"
  using
    messageSchema_content_bounds [of "\<lparr>raw_senderId = JStr ''alice'', raw_receiverId = JStr ''bob'',
        raw_content = JStr (replicate 1000 CHR ''x''), raw_messageType = JUndefined,
        raw_imageUrl = JUndefined\<rparr>" None]
    messageSchema_content_bounds [of "\<lparr>raw_senderId = JStr ''alice'', raw_receiverId = JStr ''bob'',
        raw_content = JStr ''x'', raw_messageType = JUndefined,
        raw_imageUrl = JUndefined\<rparr>" None]
    messageSchema_content_bounds [of "\<lparr>raw_senderId = JStr ''alice'', raw_receiverId = JStr ''bob'',
        raw_content = JStr (replicate 1001 CHR ''x''), raw_messageType = JUndefined,
        raw_imageUrl = JUndefined\<rparr>" None]
    messageSchema_content_bounds [of "\<lparr>raw_senderId = JStr ''alice'', raw_receiverId = JStr ''bob'',
        raw_content = JStr [], raw_messageType = JUndefined,
        raw_imageUrl = JUndefined\<rparr>" "Some \<lparr>raw_senderId = JStr ''alice'', raw_receiverId = JStr ''bob'',
        raw_content = JStr [], raw_messageType = JUndefined,
        raw_imageUrl = JUndefined\<rparr>"
        "\<lparr>db_ok = True, now = 7, new_id = ''m1'', is_open = (\<lambda>c. True)\<rparr>" 1
        "\<lparr>connectedUsers = [(''alice'', 1), (''bob'', 2)], users = [], messages = []\<rparr>"]
  by (simp add: messageSchema_issues_def issue_def z_string_def z_content_def
        z_messageType_def z_imageUrl_def)

subsection \<open>Routing a chat message\<close>

lemma on_chat_message_valid:
  assumes "messageSchema_parse data = Inr md" and "db_ok e"
    and "ins_senderId md \<in> id_u ` set (users s)"
    and "ins_receiverId md \<in> id_u ` set (users s)"
  shows "on_chat_message e ws data s =
    (s\<lparr>messages := messages s @ [new_row (new_id e) (now e) md]\<rparr>,
     StoreWrite (InsertMessage (new_row (new_id e) (now e) md)) #
     send_if_open (is_open e) (map_of (connectedUsers s) (ins_receiverId md))
       (NewMessage (new_row (new_id e) (now e) md)) @
     send_if_open (is_open e) (Some ws) (MessageSent (new_row (new_id e) (now e) md)))"
  using assms
  by (simp add: on_chat_message_def createMessage_def references_users_def Let_def)

lemma on_chat_message_store_rejects:
  assumes "messageSchema_parse data = Inr md"
    and "\<not> (db_ok e \<and> references_users md (users s))"
  shows "on_chat_message e ws data s = (s, [LogError StoreError])"
proof -
  have "createMessage e md (users s) (messages s) = Inl StoreError"
    unfolding createMessage_def using assms(2) by (rule if_not_P)
  then show ?thesis
    using assms(1) by (simp add: on_chat_message_def)
qed

lemma message_sent_events_simps:
  "message_sent_events [] = []"
  "message_sent_events (xs @ ys) = message_sent_events xs @ message_sent_events ys"
  "message_sent_events (Send c (MessageSent m) # xs) = (c, m) # message_sent_events xs"
  "message_sent_events (Send c (NewMessage m) # xs) = message_sent_events xs"
  "message_sent_events (StoreWrite w # xs) = message_sent_events xs"
  by (simp_all add: message_sent_events_def)

lemma new_message_events_simps:
  "new_message_events [] = []"
  "new_message_events (xs @ ys) = new_message_events xs @ new_message_events ys"
  "new_message_events (Send c (NewMessage m) # xs) = (c, m) # new_message_events xs"
  "new_message_events (Send c (MessageSent m) # xs) = new_message_events xs"
  "new_message_events (StoreWrite w # xs) = new_message_events xs"
  by (simp_all add: new_message_events_def)

lemma send_if_open_projections:
  "writes (send_if_open opn r msg) = []"
  "errors (send_if_open opn r msg) = []"
  "message_sent_events (send_if_open opn r (NewMessage m)) = []"
  "new_message_events (send_if_open opn r (MessageSent m)) = []"
  "message_sent_events (send_if_open opn (Some c) (MessageSent m)) = (if opn c then [(c, m)] else [])"
  by (auto simp: send_if_open_def message_sent_events_simps new_message_events_simps
      split: option.splits)

text \<open>
  Claim C3, as the code has it. For a chat payload that passes validation and whose
  insert the store completes (the store is reachable and the payload's sender and
  receiver are ids of rows of the users table), the handler appends exactly one row to
  the messages table, with \<open>isRead\<close> false and \<open>createdAt\<close> set by the store, issues that
  one store write and no other, and sends exactly one \<open>message_sent\<close> event carrying that
  row on the connection the payload came from when that connection is open (none when
  it is not), whatever the registry holds for the receiver. No error is raised.
\<close>

theorem chat_message_persisted_and_confirmed:
  assumes "messageSchema_parse data = Inr md" and "db_ok e"
    and "ins_senderId md \<in> id_u ` set (users s)"
    and "ins_receiverId md \<in> id_u ` set (users s)"
  shows "messages (fst (on_message e ws (ChatMessage data) s))
           = messages s @ [new_row (new_id e) (now e) md]
    \<and> users (fst (on_message e ws (ChatMessage data) s)) = users s
    \<and> writes (snd (on_message e ws (ChatMessage data) s))
           = [InsertMessage (new_row (new_id e) (now e) md)]
    \<and> isRead (new_row (new_id e) (now e) md) = Some False
    \<and> createdAt (new_row (new_id e) (now e) md) = Some (now e)
    \<and> senderId (new_row (new_id e) (now e) md) = ins_senderId md
    \<and> receiverId (new_row (new_id e) (now e) md) = ins_receiverId md
    \<and> content (new_row (new_id e) (now e) md) = ins_content md
    \<and> message_sent_events (snd (on_message e ws (ChatMessage data) s))
           = (if is_open e ws then [(ws, new_row (new_id e) (now e) md)] else [])
    \<and> errors (snd (on_message e ws (ChatMessage data) s)) = []"
  by (simp add: on_chat_message_valid [OF assms] writes_append errors_append
        message_sent_events_simps send_if_open_projections new_row_def)

theorem chat_message_persisted_and_confirmed_witness:
  "messages (fst (on_message \<lparr>db_ok = True, now = 7, new_id = ''m1'', is_open = (\<lambda>c. c = 1)\<rparr> 1
       (ChatMessage (Some \<lparr>raw_senderId = JStr ''alice'', raw_receiverId = JStr ''bob'',
          raw_content = JStr ''hi'', raw_messageType = JUndefined, raw_imageUrl = JUndefined\<rparr>))
       \<lparr>connectedUsers = [(''alice'', 1)],
        users = [\<lparr>id_u = ''alice'', isOnline = Some True, lastSeen = None, updatedAt = None\<rparr>,
                 \<lparr>id_u = ''bob'', isOnline = Some False, lastSeen = None, updatedAt = None\<rparr>],
        messages = []\<rparr>))
     = [\<lparr>id_m = ''m1'', senderId = ''alice'', receiverId = ''bob'', content = ''hi'',
         messageType = Some ''text'', imageUrl = None, isRead = Some False,
         createdAt = Some 7\<rparr>]
   \<and> message_sent_events (snd (on_message
       \<lparr>db_ok = True, now = 7, new_id = ''m1'', is_open = (\<lambda>c. c = 1)\<rparr> 1
       (ChatMessage (Some \<lparr>raw_senderId = JStr ''alice'', raw_receiverId = JStr ''bob'',
          raw_content = JStr ''hi'', raw_messageType = JUndefined, raw_imageUrl = JUndefined\<rparr>))
       \<lparr>connectedUsers = [(''alice'', 1)],
        users = [\<lparr>id_u = ''alice'', isOnline = Some True, lastSeen = None, updatedAt = None\<rparr>,
                 \<lparr>id_u = ''bob'', isOnline = Some False, lastSeen = None, updatedAt = None\<rparr>],
        messages = []\<rparr>))
     = [(1, \<lparr>id_m = ''m1'', senderId = ''alice'', receiverId = ''bob'', content = ''hi'',
         messageType = Some ''text'', imageUrl = None, isRead = Some False,
         createdAt = Some 7\<rparr>)]"
proof -
  let ?s = "\<lparr>connectedUsers = [(''alice'', 1)],
        users = [\<lparr>id_u = ''alice'', isOnline = Some True, lastSeen = None, updatedAt = None\<rparr>,
                 \<lparr>id_u = ''bob'', isOnline = Some False, lastSeen = None, updatedAt = None\<rparr>],
        messages = []\<rparr>"
  let ?md = "\<lparr>ins_senderId = ''alice'', ins_receiverId = ''bob'', ins_content = ''hi'',
            ins_messageType = ''text'', ins_imageUrl = None\<rparr>"
  have p: "messageSchema_parse (Some \<lparr>raw_senderId = JStr ''alice'', raw_receiverId = JStr ''bob'',
          raw_content = JStr ''hi'', raw_messageType = JUndefined, raw_imageUrl = JUndefined\<rparr>)
     = Inr ?md"
    by (simp add: messageSchema_parse_def z_string_def z_content_def z_messageType_def
          z_imageUrl_def)
  have ok: "db_ok \<lparr>db_ok = True, now = 7, new_id = ''m1'', is_open = (\<lambda>c. c = 1)\<rparr>"
    by simp
  have fs: "ins_senderId ?md \<in> id_u ` set (users ?s)" by simp
  have fr: "ins_receiverId ?md \<in> id_u ` set (users ?s)" by simp
  show ?thesis
    using chat_message_persisted_and_confirmed [OF p ok fs fr, of 1]
    by (simp add: new_row_def)
qed

text \<open>
  A payload that passes validation but names a sender that is no row of the users
  table: the store rejects the insert, nothing is persisted and no \<open>message_sent\<close> goes
  to the open connection it came from.
\<close>

theorem chat_message_unknown_sender_counterexample:
  "messageSchema_parse (Some \<lparr>raw_senderId = JStr ''mallory'', raw_receiverId = JStr ''bob'',
          raw_content = JStr ''hi'', raw_messageType = JUndefined, raw_imageUrl = JUndefined\<rparr>)
     = Inr \<lparr>ins_senderId = ''mallory'', ins_receiverId = ''bob'', ins_content = ''hi'',
            ins_messageType = ''text'', ins_imageUrl = None\<rparr>
   \<and> on_message \<lparr>db_ok = True, now = 7, new_id = ''m1'', is_open = (\<lambda>c. True)\<rparr> 1
       (ChatMessage (Some \<lparr>raw_senderId = JStr ''mallory'', raw_receiverId = JStr ''bob'',
          raw_content = JStr ''hi'', raw_messageType = JUndefined, raw_imageUrl = JUndefined\<rparr>))
       \<lparr>connectedUsers = [(''mallory'', 1)],
        users = [\<lparr>id_u = ''bob'', isOnline = Some False, lastSeen = None, updatedAt = None\<rparr>],
        messages = []\<rparr>
     = (\<lparr>connectedUsers = [(''mallory'', 1)],
         users = [\<lparr>id_u = ''bob'', isOnline = Some False, lastSeen = None, updatedAt = None\<rparr>],
         messages = []\<rparr>,
        [LogError StoreError])"
  by (simp add: on_chat_message_def messageSchema_parse_def z_string_def z_content_def
        z_messageType_def z_imageUrl_def createMessage_def references_users_def)

text \<open>
  Claim C4, as the code has it. For a chat payload that passes validation and whose
  insert the store completes (the store is reachable and the payload's sender and
  receiver are ids of rows of the users table): when the receiver is bound to a
  connection whose transport is open, exactly one \<open>new_message\<close> event is sent, on that
  connection, carrying the persisted row; when the receiver is not bound or its
  connection is not open, no \<open>new_message\<close> event is sent at all. In both cases the row
  is persisted and no error is raised.
\<close>

theorem new_message_iff_receiver_reachable:
  assumes "messageSchema_parse data = Inr md" and "db_ok e"
    and "ins_senderId md \<in> id_u ` set (users s)"
    and "ins_receiverId md \<in> id_u ` set (users s)"
  shows "(\<forall>rws. map_of (connectedUsers s) (ins_receiverId md) = Some rws \<and> is_open e rws \<longrightarrow>
            new_message_events (snd (on_message e ws (ChatMessage data) s))
              = [(rws, new_row (new_id e) (now e) md)])
    \<and> ((\<nexists>rws. map_of (connectedUsers s) (ins_receiverId md) = Some rws \<and> is_open e rws) \<longrightarrow>
            new_message_events (snd (on_message e ws (ChatMessage data) s)) = [])
    \<and> messages (fst (on_message e ws (ChatMessage data) s))
         = messages s @ [new_row (new_id e) (now e) md]
    \<and> errors (snd (on_message e ws (ChatMessage data) s)) = []"
  by (auto simp: on_chat_message_valid [OF assms] errors_append
        new_message_events_simps send_if_open_projections send_if_open_def
        split: option.splits)

theorem new_message_iff_receiver_reachable_witness:
  "new_message_events (snd (on_message
       \<lparr>db_ok = True, now = 7, new_id = ''m1'', is_open = (\<lambda>c. c = 2)\<rparr> 1
       (ChatMessage (Some \<lparr>raw_senderId = JStr ''alice'', raw_receiverId = JStr ''bob'',
          raw_content = JStr ''hi'', raw_messageType = JUndefined, raw_imageUrl = JUndefined\<rparr>))
       \<lparr>connectedUsers = [(''alice'', 1), (''bob'', 2)],
        users = [\<lparr>id_u = ''alice'', isOnline = Some True, lastSeen = None, updatedAt = None\<rparr>,
                 \<lparr>id_u = ''bob'', isOnline = Some True, lastSeen = None, updatedAt = None\<rparr>],
        messages = []\<rparr>))
     = [(2, \<lparr>id_m = ''m1'', senderId = ''alice'', receiverId = ''bob'', content = ''hi'',
         messageType = Some ''text'', imageUrl = None, isRead = Some False,
         createdAt = Some 7\<rparr>)]
   \<and> new_message_events (snd (on_message
       \<lparr>db_ok = True, now = 7, new_id = ''m1'', is_open = (\<lambda>c. c = 2)\<rparr> 1
       (ChatMessage (Some \<lparr>raw_senderId = JStr ''alice'', raw_receiverId = JStr ''bob'',
          raw_content = JStr ''hi'', raw_messageType = JUndefined, raw_imageUrl = JUndefined\<rparr>))
       \<lparr>connectedUsers = [(''alice'', 1)],
        users = [\<lparr>id_u = ''alice'', isOnline = Some True, lastSeen = None, updatedAt = None\<rparr>,
                 \<lparr>id_u = ''bob'', isOnline = Some False, lastSeen = None, updatedAt = None\<rparr>],
        messages = []\<rparr>))
     = []"
proof -
  let ?s1 = "\<lparr>connectedUsers = [(''alice'', 1), (''bob'', 2)],
        users = [\<lparr>id_u = ''alice'', isOnline = Some True, lastSeen = None, updatedAt = None\<rparr>,
                 \<lparr>id_u = ''bob'', isOnline = Some True, lastSeen = None, updatedAt = None\<rparr>],
        messages = []\<rparr>"
  let ?s2 = "\<lparr>connectedUsers = [(''alice'', 1)],
        users = [\<lparr>id_u = ''alice'', isOnline = Some True, lastSeen = None, updatedAt = None\<rparr>,
                 \<lparr>id_u = ''bob'', isOnline = Some False, lastSeen = None, updatedAt = None\<rparr>],
        messages = []\<rparr>"
  let ?md = "\<lparr>ins_senderId = ''alice'', ins_receiverId = ''bob'', ins_content = ''hi'',
            ins_messageType = ''text'', ins_imageUrl = None\<rparr>"
  have p: "messageSchema_parse (Some \<lparr>raw_senderId = JStr ''alice'', raw_receiverId = JStr ''bob'',
          raw_content = JStr ''hi'', raw_messageType = JUndefined, raw_imageUrl = JUndefined\<rparr>)
     = Inr ?md"
    by (simp add: messageSchema_parse_def z_string_def z_content_def z_messageType_def
          z_imageUrl_def)
  have ok: "db_ok \<lparr>db_ok = True, now = 7, new_id = ''m1'', is_open = (\<lambda>c. c = 2)\<rparr>"
    by simp
  have fs1: "ins_senderId ?md \<in> id_u ` set (users ?s1)" by simp
  have fr1: "ins_receiverId ?md \<in> id_u ` set (users ?s1)" by simp
  have fs2: "ins_senderId ?md \<in> id_u ` set (users ?s2)" by simp
  have fr2: "ins_receiverId ?md \<in> id_u ` set (users ?s2)" by simp
  show ?thesis
    using new_message_iff_receiver_reachable [OF p ok fs1 fr1, of 1]
      new_message_iff_receiver_reachable [OF p ok fs2 fr2, of 1]
    by (simp add: new_row_def)
qed

text \<open>
  A payload that passes validation, for a receiver bound to an open connection that is
  no row of the users table (the \<open>auth\<close> branch binds any non-empty id): the store
  rejects the insert, the receiver gets no \<open>new_message\<close> and the operation fails with
  the logged store error.
\<close>

theorem new_message_store_rejects_counterexample:
  "messageSchema_parse (Some \<lparr>raw_senderId = JStr ''alice'', raw_receiverId = JStr ''bob'',
          raw_content = JStr ''hi'', raw_messageType = JUndefined, raw_imageUrl = JUndefined\<rparr>)
     = Inr \<lparr>ins_senderId = ''alice'', ins_receiverId = ''bob'', ins_content = ''hi'',
            ins_messageType = ''text'', ins_imageUrl = None\<rparr>
   \<and> map_of [(''alice'', 1), (''bob'', 2 :: conn)] ''bob'' = Some 2
   \<and> new_message_events (snd (on_message
       \<lparr>db_ok = True, now = 7, new_id = ''m1'', is_open = (\<lambda>c. True)\<rparr> 1
       (ChatMessage (Some \<lparr>raw_senderId = JStr ''alice'', raw_receiverId = JStr ''bob'',
          raw_content = JStr ''hi'', raw_messageType = JUndefined, raw_imageUrl = JUndefined\<rparr>))
       \<lparr>connectedUsers = [(''alice'', 1), (''bob'', 2)],
        users = [\<lparr>id_u = ''alice'', isOnline = Some True, lastSeen = None, updatedAt = None\<rparr>],
        messages = []\<rparr>)) = []
   \<and> errors (snd (on_message
       \<lparr>db_ok = True, now = 7, new_id = ''m1'', is_open = (\<lambda>c. True)\<rparr> 1
       (ChatMessage (Some \<lparr>raw_senderId = JStr ''alice'', raw_receiverId = JStr ''bob'',
          raw_content = JStr ''hi'', raw_messageType = JUndefined, raw_imageUrl = JUndefined\<rparr>))
       \<lparr>connectedUsers = [(''alice'', 1), (''bob'', 2)],
        users = [\<lparr>id_u = ''alice'', isOnline = Some True, lastSeen = None, updatedAt = None\<rparr>],
        messages = []\<rparr>)) = [StoreError]"
  by (simp add: on_chat_message_def messageSchema_parse_def z_string_def z_content_def
        z_messageType_def z_imageUrl_def createMessage_def references_users_def
        new_message_events_def)

subsection \<open>A failed presence write\<close>

text \<open>
  Claim C9. When the presence write of an auth handshake for identity U fails, the
  failure is logged and that is the only effect: the registry binds U to the
  handshake's connection (the binding is not rolled back), every other identity's
  binding is as before, both tables are unchanged, and nothing is sent: no
  \<open>user_online\<close> event reaches any connection.
\<close>

theorem auth_store_failure_contained:
  assumes "u \<noteq> []" and "\<not> db_ok e"
  shows "map_of (connectedUsers (fst (on_message e ws (Auth (Some u)) s))) u = Some ws
    \<and> (\<forall>v. v \<noteq> u \<longrightarrow> map_of (connectedUsers (fst (on_message e ws (Auth (Some u)) s))) v
                        = map_of (connectedUsers s) v)
    \<and> users (fst (on_message e ws (Auth (Some u)) s)) = users s
    \<and> messages (fst (on_message e ws (Auth (Some u)) s)) = messages s
    \<and> snd (on_message e ws (Auth (Some u)) s) = [LogError StoreError]
    \<and> sends (snd (on_message e ws (Auth (Some u)) s)) = []
    \<and> user_online_events (snd (on_message e ws (Auth (Some u)) s)) = []"
  using assms
  by (simp add: on_auth_def Let_def AList.update_conv' user_online_events_def)

theorem auth_store_failure_contained_witness:
  "map_of (connectedUsers (fst (on_message
       \<lparr>db_ok = False, now = 7, new_id = ''m1'', is_open = (\<lambda>c. True)\<rparr> 1 (Auth (Some ''alice''))
       \<lparr>connectedUsers = [(''bob'', 2)], users = [], messages = []\<rparr>))) ''alice'' = Some 1
   \<and> map_of (connectedUsers (fst (on_message
       \<lparr>db_ok = False, now = 7, new_id = ''m1'', is_open = (\<lambda>c. True)\<rparr> 1 (Auth (Some ''alice''))
       \<lparr>connectedUsers = [(''bob'', 2)], users = [], messages = []\<rparr>))) ''bob'' = Some 2
   \<and> snd (on_message
       \<lparr>db_ok = False, now = 7, new_id = ''m1'', is_open = (\<lambda>c. True)\<rparr> 1 (Auth (Some ''alice''))
       \<lparr>connectedUsers = [(''bob'', 2)], users = [], messages = []\<rparr>) = [LogError StoreError]"
  using auth_store_failure_contained [of "''alice''"
       "\<lparr>db_ok = False, now = 7, new_id = ''m1'', is_open = (\<lambda>c. True)\<rparr>" 1
       "\<lparr>connectedUsers = [(''bob'', 2)], users = [], messages = []\<rparr>"]
  by simp

subsection \<open>The registry\<close>

lemma update_entries:
  assumes "distinct (map fst al)"
  shows "(k', v') \<in> set (AList.update k v al) \<longleftrightarrow>
           (k' = k \<and> v' = v) \<or> (k' \<noteq> k \<and> (k', v') \<in> set al)"
proof -
  have d: "distinct (map fst (AList.update k v al))"
    using assms by (rule AList.distinct_update)
  have "(k', v') \<in> set (AList.update k v al) \<longleftrightarrow> map_of (AList.update k v al) k' = Some v'"
    using d by simp
  also have "\<dots> \<longleftrightarrow> ((map_of al)(k \<mapsto> v)) k' = Some v'"
    by (simp add: AList.update_conv')
  also have "\<dots> \<longleftrightarrow> (k' = k \<and> v' = v) \<or> (k' \<noteq> k \<and> (k', v') \<in> set al)"
    using assms by auto
  finally show ?thesis .
qed

lemma broadcastToAll_projections:
  "writes (broadcastToAll opn cu msg) = []"
  "errors (broadcastToAll opn cu msg) = []"
  "sends (broadcastToAll opn cu msg) = map (\<lambda>c. (c, msg)) (filter opn (map snd cu))"
  "user_offline_events (broadcastToAll opn cu (UserOffline u))
     = map (\<lambda>c. (c, u)) (filter opn (map snd cu))"
  "user_online_events (broadcastToAll opn cu (UserOnline u))
     = map (\<lambda>c. (c, u)) (filter opn (map snd cu))"
  "user_offline_events (broadcastToAll opn cu (UserOnline u)) = []"
  "user_online_events (broadcastToAll opn cu (UserOffline u)) = []"
  by (induction cu; simp add: broadcastToAll_def user_offline_events_def user_online_events_def)+

lemma presence_events_simps:
  "user_online_events [] = []"
  "user_offline_events [] = []"
  "user_online_events (xs @ ys) = user_online_events xs @ user_online_events ys"
  "user_offline_events (xs @ ys) = user_offline_events xs @ user_offline_events ys"
  "user_online_events (StoreWrite w # xs) = user_online_events xs"
  "user_offline_events (StoreWrite w # xs) = user_offline_events xs"
  "user_online_events (LogError x # xs) = user_online_events xs"
  "user_offline_events (LogError x # xs) = user_offline_events xs"
  "user_online_events (Unhandled x # xs) = user_online_events xs"
  "user_offline_events (Unhandled x # xs) = user_offline_events xs"
  by (simp_all add: user_online_events_def user_offline_events_def)

lemma on_auth_registry:
  "u \<noteq> [] \<Longrightarrow> connectedUsers (fst (on_auth e ws (Some u) s)) = AList.update u ws (connectedUsers s)"
  by (simp add: on_auth_def Let_def)

lemma on_close_not_bound:
  assumes "\<forall>x \<in> set (connectedUsers s). snd x \<noteq> ws"
  shows "on_close e ws s = (s, [])"
proof -
  have "find (\<lambda>(userId, userWs). userWs = ws) (connectedUsers s) = None"
    using assms by (auto simp: find_None_iff)
  then show ?thesis by (simp add: on_close_def)
qed

lemma find_SomeD: "find P xs = Some x \<Longrightarrow> P x \<and> x \<in> set xs"
  by (induction xs) (auto split: if_splits)

lemma on_close_other_identity:
  assumes d: "distinct (map fst (connectedUsers s))"
    and b: "map_of (connectedUsers s) U = Some C2" and ne: "C1 \<noteq> C2"
  shows "map_of (connectedUsers (fst (on_close e C1 s))) U = Some C2
    \<and> SetOnlineStatus U False \<notin> set (writes (snd (on_close e C1 s)))
    \<and> (\<forall>c. (c, U) \<notin> set (user_offline_events (snd (on_close e C1 s))))"
proof (cases "find (\<lambda>(userId, userWs). userWs = C1) (connectedUsers s)")
  case None
  then show ?thesis
    using b by (simp add: on_close_def presence_events_simps)
next
  case (Some p)
  obtain uid c' where p: "p = (uid, c')" by (cases p)
  have "c' = C1 \<and> (uid, c') \<in> set (connectedUsers s)"
    using find_SomeD [OF Some] by (auto simp: p)
  then have "map_of (connectedUsers s) uid = Some C1" using d by auto
  then have uid: "uid \<noteq> U" using b ne by auto
  have 1: "map_of (connectedUsers (fst (on_close e C1 s))) U = Some C2"
    using Some uid b by (simp add: on_close_def p Let_def AList.delete_conv')
  have 2: "SetOnlineStatus U False \<notin> set (writes (snd (on_close e C1 s)))"
    using Some uid by (simp add: on_close_def p Let_def broadcastToAll_projections)
  have 3: "\<forall>c. (c, U) \<notin> set (user_offline_events (snd (on_close e C1 s)))"
    using Some uid
    by (cases "db_ok e")
       (auto simp: on_close_def p Let_def broadcastToAll_projections presence_events_simps)
  show ?thesis using 1 2 3 by blast
qed

lemma non_auth_registry:
  "\<forall>uid. ev \<noteq> Auth uid \<Longrightarrow> connectedUsers (fst (on_message e ws ev s)) = connectedUsers s"
  by (cases ev)
     (simp_all add: on_chat_message_def createMessage_def on_update_last_seen_def on_typing_def
        Let_def split: sum.splits option.splits)

text \<open>The keys of the registry stay distinct, as those of a \<^verbatim>\<open>Map\<close> are.\<close>

lemma distinct_registry_step:
  assumes "distinct (map fst (connectedUsers s))"
  shows "distinct (map fst (connectedUsers (fst (step e ev s))))"
proof (cases ev)
  case (Message ws m)
  show ?thesis
  proof (cases "\<exists>uid. m = Auth uid")
    case True
    then obtain uid where m: "m = Auth uid" by blast
    show ?thesis
      using assms
      by (cases uid) (auto simp: Message m on_auth_def Let_def AList.distinct_update)
  next
    case False
    then show ?thesis
      using assms non_auth_registry [of m e ws s] by (simp add: Message)
  qed
next
  case (Close ws)
  show ?thesis
    using assms
    by (auto simp: Close on_close_def Let_def AList.distinct_delete split: option.splits)
qed

lemma distinct_registry_run:
  assumes "distinct (map fst (connectedUsers s))"
  shows "distinct (map fst (connectedUsers (fst (run evs s))))"
  using assms
proof (induction evs arbitrary: s)
  case Nil
  then show ?case by simp
next
  case (Cons a evs)
  obtain e ev where a: "a = (e, ev)" by (cases a)
  have "distinct (map fst (connectedUsers (fst (step e ev s))))"
    using Cons.prems by (rule distinct_registry_step)
  then have "distinct (map fst (connectedUsers (fst (run evs (fst (step e ev s))))))"
    by (rule Cons.IH)
  then show ?case
    by (simp add: a case_prod_unfold Let_def)
qed

subsection \<open>Closing a superseded connection\<close>

text \<open>
  Claim C10. Let identity U be bound to connection C1, and let an auth handshake on
  another connection C2 rebind U (the map entry is replaced, C1 is not closed). When C1
  then closes, the binding of U to C2 is kept, no store write sets U offline and no
  \<open>user_offline\<close> event for U is sent to any connection. When C1 was bound under no
  other identity, its close has no effect at all: the state is unchanged and the trace
  is empty.
\<close>

theorem close_of_superseded_connection:
  assumes "distinct (map fst (connectedUsers s))"
    and "map_of (connectedUsers s) U = Some C1" and "C1 \<noteq> C2" and "U \<noteq> []"
  shows "map_of (connectedUsers (fst (on_message e1 C2 (Auth (Some U)) s))) U = Some C2
    \<and> map_of (connectedUsers (fst (on_close e2 C1 (fst (on_message e1 C2 (Auth (Some U)) s))))) U
        = Some C2
    \<and> SetOnlineStatus U False
        \<notin> set (writes (snd (on_close e2 C1 (fst (on_message e1 C2 (Auth (Some U)) s)))))
    \<and> (\<forall>c. (c, U) \<notin> set (user_offline_events
               (snd (on_close e2 C1 (fst (on_message e1 C2 (Auth (Some U)) s))))))
    \<and> ((\<forall>x \<in> set (connectedUsers s). snd x = C1 \<longrightarrow> fst x = U) \<longrightarrow>
         on_close e2 C1 (fst (on_message e1 C2 (Auth (Some U)) s))
           = (fst (on_message e1 C2 (Auth (Some U)) s), []))"
proof -
  let ?s1 = "fst (on_message e1 C2 (Auth (Some U)) s)"
  have reg: "connectedUsers ?s1 = AList.update U C2 (connectedUsers s)"
    using assms(4) by (simp add: on_auth_registry)
  have d1: "distinct (map fst (connectedUsers ?s1))"
    unfolding reg using assms(1) by (rule AList.distinct_update)
  have b1: "map_of (connectedUsers ?s1) U = Some C2"
    unfolding reg by (simp add: AList.update_conv')
  note gen = on_close_other_identity [OF d1 b1 assms(3)]
  have quiet: "on_close e2 C1 ?s1 = (?s1, [])"
    if only: "\<forall>x \<in> set (connectedUsers s). snd x = C1 \<longrightarrow> fst x = U"
  proof (rule on_close_not_bound)
    show "\<forall>x \<in> set (connectedUsers ?s1). snd x \<noteq> C1"
    proof
      fix x assume x: "x \<in> set (connectedUsers ?s1)"
      obtain k v where kv: "x = (k, v)" by (cases x)
      from x have "(k = U \<and> v = C2) \<or> (k \<noteq> U \<and> (k, v) \<in> set (connectedUsers s))"
        unfolding reg kv using update_entries [OF assms(1)] by simp
      then show "snd x \<noteq> C1"
        using only assms(3) by (auto simp: kv)
    qed
  qed
  show ?thesis
    using b1 gen quiet by blast
qed

theorem close_of_superseded_connection_witness:
  "map_of (connectedUsers (fst (on_close
       \<lparr>db_ok = True, now = 9, new_id = ''m2'', is_open = (\<lambda>c. c = 2)\<rparr> 1
       (fst (on_message \<lparr>db_ok = True, now = 8, new_id = ''m1'', is_open = (\<lambda>c. True)\<rparr> 2
              (Auth (Some ''alice''))
              \<lparr>connectedUsers = [(''alice'', 1)], users = [], messages = []\<rparr>))))) ''alice''
     = Some 2
   \<and> on_close \<lparr>db_ok = True, now = 9, new_id = ''m2'', is_open = (\<lambda>c. c = 2)\<rparr> 1
       (fst (on_message \<lparr>db_ok = True, now = 8, new_id = ''m1'', is_open = (\<lambda>c. True)\<rparr> 2
              (Auth (Some ''alice''))
              \<lparr>connectedUsers = [(''alice'', 1)], users = [], messages = []\<rparr>))
     = (\<lparr>connectedUsers = [(''alice'', 2)], users = [], messages = []\<rparr>, [])"
  using close_of_superseded_connection [of
       "\<lparr>connectedUsers = [(''alice'', 1)], users = [], messages = []\<rparr>" "''alice''" 1 2
       "\<lparr>db_ok = True, now = 8, new_id = ''m1'', is_open = (\<lambda>c. True)\<rparr>"
       "\<lparr>db_ok = True, now = 9, new_id = ''m2'', is_open = (\<lambda>c. c = 2)\<rparr>"]
  by (simp add: on_auth_def updateUserOnlineStatus_def)

subsection \<open>Listeners run to completion\<close>

text \<open>\<open>on_message\<close> and \<open>on_close\<close> are the two parts of a listener with nothing in
  between, and \<open>run\<close> is \<open>srun\<close> on the schedule without overlap.\<close>

lemma on_message_phases:
  "on_message e ws m s =
     (case begin_message e ws m s of
        (s1, fx, None) \<Rightarrow> (s1, fx)
      | (s1, fx, Some p) \<Rightarrow> (case resume e p s1 of (s2, fx2) \<Rightarrow> (s2, fx @ fx2)))"
proof (cases m)
  case Unparseable
  then show ?thesis by simp
next
  case (Auth userId)
  then show ?thesis
    by (cases userId) (simp_all add: on_auth_def Let_def)
next
  case (ChatMessage data)
  then show ?thesis
    by (cases "messageSchema_parse data")
       (simp_all add: on_chat_message_def split: sum.splits prod.splits)
next
  case (UpdateLastSeen userId)
  then show ?thesis
    by (cases userId) (simp_all add: on_update_last_seen_def Let_def)
next
  case (Typing sId rId isTyping)
  then show ?thesis by (simp add: on_typing_def)
next
  case Unknown
  then show ?thesis by simp
qed

lemma on_close_phases:
  "on_close e ws s =
     (case begin_close ws s of
        (s1, None) \<Rightarrow> (s1, [])
      | (s1, Some p) \<Rightarrow> resume e p s1)"
  by (simp add: on_close_def begin_close_def Let_def split: option.splits prod.splits)

lemma srun_message:
  "srun ((e, Arrive ws m) # (e, Settle 0) # rest) (s, []) =
     (case srun rest (fst (on_message e ws m s), []) of
        (c2, fx2) \<Rightarrow> (c2, snd (on_message e ws m s) @ fx2))"
proof -
  obtain s1 fx p where b: "begin_message e ws m s = (s1, fx, p)"
    by (cases "begin_message e ws m s")
  show ?thesis
  proof (cases p)
    case None
    then show ?thesis
      using b by (simp add: on_message_phases split: prod.splits)
  next
    case (Some k)
    obtain s2 fx2 where r: "resume e k s1 = (s2, fx2)" by (cases "resume e k s1")
    show ?thesis
      using b Some r by (simp add: on_message_phases split: prod.splits)
  qed
qed

lemma srun_close:
  "srun ((e, Closed ws) # (e, Settle 0) # rest) (s, []) =
     (case srun rest (fst (on_close e ws s), []) of
        (c2, fx2) \<Rightarrow> (c2, snd (on_close e ws s) @ fx2))"
proof -
  obtain s1 p where b: "begin_close ws s = (s1, p)" by (cases "begin_close ws s")
  show ?thesis
  proof (cases p)
    case None
    then show ?thesis
      using b by (simp add: on_close_phases split: prod.splits)
  next
    case (Some k)
    obtain s2 fx2 where r: "resume e k s1 = (s2, fx2)" by (cases "resume e k s1")
    show ?thesis
      using b Some r by (simp add: on_close_phases split: prod.splits)
  qed
qed

lemma srun_sequential:
  "srun (sequential evs) (s, []) = ((fst (run evs s), []), snd (run evs s))"
proof (induction evs arbitrary: s rule: sequential.induct)
  case 1
  show ?case by simp
next
  case (2 e ws m rest)
  show ?case
    unfolding sequential.simps srun_message
    by (simp add: "2.IH" case_prod_unfold Let_def)
next
  case (3 e ws rest)
  show ?case
    unfolding sequential.simps srun_close
    by (simp add: "3.IH" case_prod_unfold Let_def)
qed

text \<open>When listeners overlap the order of the broadcasts follows the order in which
  the store statements settle. One handshake for \<open>alice\<close> on connection 1, then the
  close of connection 1 while the handshake's write is pending, and the write of the
  close settling first: the observer on connection 2 gets \<open>user_offline\<close> before
  \<open>user_online\<close>, and the row of \<open>alice\<close> is left online.\<close>

lemma overlapping_close_reorders:
  "srun
     [(\<lparr>db_ok = True, now = 1, new_id = ''m1'', is_open = (\<lambda>c. True)\<rparr>,
         Arrive 1 (Auth (Some ''alice''))),
      (\<lparr>db_ok = True, now = 2, new_id = ''m2'', is_open = (\<lambda>c. c = 2)\<rparr>, Closed 1),
      (\<lparr>db_ok = True, now = 3, new_id = ''m3'', is_open = (\<lambda>c. c = 2)\<rparr>, Settle 1),
      (\<lparr>db_ok = True, now = 4, new_id = ''m4'', is_open = (\<lambda>c. c = 2)\<rparr>, Settle 0)]
     (\<lparr>connectedUsers = [(''bob'', 2)],
       users = [\<lparr>id_u = ''alice'', isOnline = Some False, lastSeen = None, updatedAt = None\<rparr>,
                \<lparr>id_u = ''bob'', isOnline = Some True, lastSeen = None, updatedAt = None\<rparr>],
       messages = []\<rparr>, [])
   = ((\<lparr>connectedUsers = [(''bob'', 2)],
        users = [\<lparr>id_u = ''alice'', isOnline = Some True, lastSeen = Some 4, updatedAt = Some 4\<rparr>,
                 \<lparr>id_u = ''bob'', isOnline = Some True, lastSeen = None, updatedAt = None\<rparr>],
        messages = []\<rparr>, []),
      [StoreWrite (SetOnlineStatus ''alice'' False), Send 2 (UserOffline ''alice''),
       StoreWrite (SetOnlineStatus ''alice'' True), Send 2 (UserOnline ''alice'')])"
  by (simp add: begin_close_def broadcastToAll_def updateUserOnlineStatus_def Let_def)

subsection \<open>Presence over the life of a connection\<close>

lemma run_Cons_fst: "fst (run ((e, ev) # rest) s) = fst (run rest (fst (step e ev s)))"
  by (simp add: case_prod_unfold Let_def)

lemma run_Cons_snd:
  "snd (run ((e, ev) # rest) s) = snd (step e ev s) @ snd (run rest (fst (step e ev s)))"
  by (simp add: case_prod_unfold Let_def)

lemma run_append_fst: "fst (run (xs @ ys) s) = fst (run ys (fst (run xs s)))"
proof (induction xs arbitrary: s)
  case Nil
  show ?case by simp
next
  case (Cons a xs)
  obtain e ev where a: "a = (e, ev)" by (cases a)
  show ?case
    unfolding a append_Cons run_Cons_fst by (rule Cons.IH)
qed

lemma run_append_snd:
  "snd (run (xs @ ys) s) = snd (run xs s) @ snd (run ys (fst (run xs s)))"
proof (induction xs arbitrary: s)
  case Nil
  show ?case by simp
next
  case (Cons a xs)
  obtain e ev where a: "a = (e, ev)" by (cases a)
  show ?case
    unfolding a append_Cons run_Cons_fst run_Cons_snd by (simp only: Cons.IH append_assoc)
qed

lemma on_auth_ok:
  assumes "U \<noteq> []" and "db_ok e"
  shows "on_auth e ws (Some U) s =
    (s\<lparr>connectedUsers := AList.update U ws (connectedUsers s),
       users := updateUserOnlineStatus (now e) U True (users s)\<rparr>,
     StoreWrite (SetOnlineStatus U True) #
     broadcastToAll (is_open e) (AList.update U ws (connectedUsers s)) (UserOnline U))"
  using assms by (simp add: on_auth_def Let_def)

lemma run_auths:
  assumes "U \<noteq> []" and "\<forall>e \<in> set es. db_ok e"
  shows "snd (run (map (\<lambda>e. (e, Message ws (Auth (Some U)))) es) s)
           = concat (map (\<lambda>e. StoreWrite (SetOnlineStatus U True) #
                broadcastToAll (is_open e) (AList.update U ws (connectedUsers s)) (UserOnline U)) es)
    \<and> connectedUsers (fst (run (map (\<lambda>e. (e, Message ws (Auth (Some U)))) es) s))
           = (if es = [] then connectedUsers s else AList.update U ws (connectedUsers s))
    \<and> messages (fst (run (map (\<lambda>e. (e, Message ws (Auth (Some U)))) es) s)) = messages s"
  using assms(2)
proof (induction es arbitrary: s)
  case Nil
  then show ?case by simp
next
  case (Cons e es)
  let ?s1 = "s\<lparr>connectedUsers := AList.update U ws (connectedUsers s),
       users := updateUserOnlineStatus (now e) U True (users s)\<rparr>"
  have ok: "db_ok e" and rest: "\<forall>e \<in> set es. db_ok e" using Cons.prems by auto
  have st: "on_auth e ws (Some U) s =
      (?s1, StoreWrite (SetOnlineStatus U True) #
         broadcastToAll (is_open e) (AList.update U ws (connectedUsers s)) (UserOnline U))"
    using on_auth_ok [OF assms(1) ok] by simp
  show ?case
    using Cons.IH [OF rest, of ?s1]
    by (simp add: run_Cons_fst run_Cons_snd st del: run.simps(2))
qed

lemma update_entries_subset:
  "(k', v') \<in> set (AList.update k v al) \<Longrightarrow> (k' = k \<and> v' = v) \<or> (k', v') \<in> set al"
  by (induction al) (auto split: if_splits)

lemma update_entry_present: "(k, v) \<in> set (AList.update k v al)"
  by (induction al) auto

lemma find_first_bound:
  assumes "\<forall>x \<in> set (connectedUsers s). snd x = ws \<longrightarrow> fst x = U"
  shows "\<exists>c. find (\<lambda>(userId, userWs). userWs = ws) (AList.update U ws (connectedUsers s))
           = Some (U, c)"
proof (cases "find (\<lambda>(userId, userWs). userWs = ws) (AList.update U ws (connectedUsers s))")
  case None
  then show ?thesis
    using update_entry_present [of U ws "connectedUsers s"] by (auto simp: find_None_iff)
next
  case (Some p)
  obtain uid c where p: "p = (uid, c)" by (cases p)
  have "c = ws \<and> (uid, c) \<in> set (AList.update U ws (connectedUsers s))"
    using find_SomeD [OF Some] by (auto simp: p)
  then have "uid = U"
    using update_entries_subset [of uid ws U ws "connectedUsers s"] assms by fastforce
  then show ?thesis using Some p by simp
qed

lemma updateUserOnlineStatus_sets:
  assumes "u \<in> set (updateUserOnlineStatus t U b us)" and "id_u u = U"
  shows "isOnline u = Some b"
proof -
  obtain x where x: "x \<in> set us"
    and u: "u = (if id_u x = U
                 then x\<lparr>isOnline := Some b, lastSeen := Some t, updatedAt := Some t\<rparr> else x)"
    using assms(1) unfolding updateUserOnlineStatus_def set_map by blast
  show ?thesis
  proof (cases "id_u x = U")
    case True
    then show ?thesis using u by simp
  next
    case False
    then show ?thesis using u assms(2) by simp
  qed
qed

lemma on_close_first_bound:
  assumes "find (\<lambda>(userId, userWs). userWs = ws) (connectedUsers s) = Some (U, c)"
    and "db_ok e"
  shows "on_close e ws s =
    (s\<lparr>connectedUsers := AList.delete U (connectedUsers s),
       users := updateUserOnlineStatus (now e) U False (users s)\<rparr>,
     StoreWrite (SetOnlineStatus U False) #
     broadcastToAll ((is_open e)(ws := False)) (AList.delete U (connectedUsers s)) (UserOffline U))"
  using assms by (simp add: on_close_def Let_def)

text \<open>
  Claim C2, as the code has it. For an identity U and a connection bound under no other
  identity, one or more auth handshakes for U followed by the connection's close, when
  no two listeners overlap (each runs to completion, its store write included, before
  the next event is handled) and every store write completes, give this trace: for each handshake the store write that sets
  U online and then one \<open>user_online\<close> broadcast to the open connections of the
  registry (a repeated handshake broadcasts again, nothing is removed as a duplicate),
  and for the close one store write that sets U offline and then one \<open>user_offline\<close>
  broadcast to the remaining open connections. So a connection receives \<open>user_online\<close>
  for U once per handshake for each entry that binds it while it is open, and
  \<open>user_offline\<close> for U once for each entry that still binds it. Afterwards U is unbound
  and every row of U in the users table is offline. The run is the schedule of the
  split listeners in which each store statement settles before the next event arrives.
\<close>

theorem presence_broadcast_per_handshake:
  assumes "U \<noteq> []" and "es \<noteq> []" and "\<forall>e \<in> set es. db_ok e" and "db_ok ec"
    and "\<forall>x \<in> set (connectedUsers s). snd x = ws \<longrightarrow> fst x = U"
  shows "snd (run (map (\<lambda>e. (e, Message ws (Auth (Some U)))) es @ [(ec, Close ws)]) s)
       = concat (map (\<lambda>e. StoreWrite (SetOnlineStatus U True) #
            broadcastToAll (is_open e) (AList.update U ws (connectedUsers s)) (UserOnline U)) es)
         @ StoreWrite (SetOnlineStatus U False) #
            broadcastToAll ((is_open ec)(ws := False)) (AList.delete U (connectedUsers s))
              (UserOffline U)
    \<and> writes (snd (run (map (\<lambda>e. (e, Message ws (Auth (Some U)))) es @ [(ec, Close ws)]) s))
       = replicate (length es) (SetOnlineStatus U True) @ [SetOnlineStatus U False]
    \<and> user_online_events
         (snd (run (map (\<lambda>e. (e, Message ws (Auth (Some U)))) es @ [(ec, Close ws)]) s))
       = concat (map (\<lambda>e. map (\<lambda>c. (c, U))
            (filter (is_open e) (map snd (AList.update U ws (connectedUsers s))))) es)
    \<and> user_offline_events
         (snd (run (map (\<lambda>e. (e, Message ws (Auth (Some U)))) es @ [(ec, Close ws)]) s))
       = map (\<lambda>c. (c, U))
           (filter ((is_open ec)(ws := False)) (map snd (AList.delete U (connectedUsers s))))
    \<and> connectedUsers (fst (run (map (\<lambda>e. (e, Message ws (Auth (Some U)))) es @ [(ec, Close ws)]) s))
       = AList.delete U (connectedUsers s)
    \<and> (\<forall>u \<in> set (users (fst (run (map (\<lambda>e. (e, Message ws (Auth (Some U)))) es
                                     @ [(ec, Close ws)]) s))).
         id_u u = U \<longrightarrow> isOnline u = Some False)
    \<and> srun (sequential (map (\<lambda>e. (e, Message ws (Auth (Some U)))) es @ [(ec, Close ws)]))
         (s, [])
       = ((fst (run (map (\<lambda>e. (e, Message ws (Auth (Some U)))) es @ [(ec, Close ws)]) s), []),
          snd (run (map (\<lambda>e. (e, Message ws (Auth (Some U)))) es @ [(ec, Close ws)]) s))"
proof -
  let ?auths = "map (\<lambda>e. (e, Message ws (Auth (Some U)))) es"
  let ?s1 = "fst (run ?auths s)"
  let ?on = "\<lambda>e. StoreWrite (SetOnlineStatus U True) #
            broadcastToAll (is_open e) (AList.update U ws (connectedUsers s)) (UserOnline U)"
  note ra = run_auths [OF assms(1) assms(3), of ws s]
  have reg: "connectedUsers ?s1 = AList.update U ws (connectedUsers s)"
    using ra assms(2) by simp
  obtain c where f: "find (\<lambda>(userId, userWs). userWs = ws) (connectedUsers ?s1) = Some (U, c)"
    using find_first_bound [OF assms(5)] unfolding reg by blast
  note cl = on_close_first_bound [OF f assms(4)]
  have fin: "run [(ec, Close ws)] ?s1 = on_close ec ws ?s1"
    by simp
  have trace: "snd (run (?auths @ [(ec, Close ws)]) s)
       = concat (map ?on es) @ StoreWrite (SetOnlineStatus U False) #
            broadcastToAll ((is_open ec)(ws := False)) (AList.delete U (connectedUsers s))
              (UserOffline U)"
    unfolding run_append_snd fin cl reg using ra by (simp add: AList.delete_update_same)
  have w: "writes (concat (map ?on es)) = replicate (length es) (SetOnlineStatus U True)"
    by (induction es) (simp_all add: writes_append broadcastToAll_projections)
  have wr: "writes (snd (run (?auths @ [(ec, Close ws)]) s))
       = replicate (length es) (SetOnlineStatus U True) @ [SetOnlineStatus U False]"
    unfolding trace by (simp add: writes_append w broadcastToAll_projections)
  have rg: "connectedUsers (fst (run (?auths @ [(ec, Close ws)]) s))
       = AList.delete U (connectedUsers s)"
    unfolding run_append_fst fin cl reg by (simp add: AList.delete_update_same)
  have us: "\<forall>u \<in> set (users (fst (run (?auths @ [(ec, Close ws)]) s))).
         id_u u = U \<longrightarrow> isOnline u = Some False"
    unfolding run_append_fst fin cl
    by (simp add: updateUserOnlineStatus_sets [where b = False])
  have on0: "user_online_events (concat (map ?on es))
       = concat (map (\<lambda>e. map (\<lambda>c. (c, U))
            (filter (is_open e) (map snd (AList.update U ws (connectedUsers s))))) es)"
    by (induction es) (simp_all add: presence_events_simps broadcastToAll_projections)
  have off0: "user_offline_events (concat (map ?on es)) = []"
    by (induction es) (simp_all add: presence_events_simps broadcastToAll_projections)
  have onl: "user_online_events (snd (run (?auths @ [(ec, Close ws)]) s))
       = concat (map (\<lambda>e. map (\<lambda>c. (c, U))
            (filter (is_open e) (map snd (AList.update U ws (connectedUsers s))))) es)"
    unfolding trace by (simp add: presence_events_simps on0 broadcastToAll_projections)
  have offl: "user_offline_events (snd (run (?auths @ [(ec, Close ws)]) s))
       = map (\<lambda>c. (c, U))
           (filter ((is_open ec)(ws := False)) (map snd (AList.delete U (connectedUsers s))))"
    unfolding trace by (simp add: presence_events_simps off0 broadcastToAll_projections)
  have sq: "srun (sequential (?auths @ [(ec, Close ws)])) (s, [])
       = ((fst (run (?auths @ [(ec, Close ws)]) s), []),
          snd (run (?auths @ [(ec, Close ws)]) s))"
    by (rule srun_sequential)
  show ?thesis
    by (rule conjI [OF trace conjI [OF wr conjI [OF onl conjI [OF offl
          conjI [OF rg conjI [OF us sq]]]]]])
qed

theorem presence_broadcast_per_handshake_witness:
  "user_online_events (snd (run
      [(\<lparr>db_ok = True, now = 1, new_id = ''m1'', is_open = (\<lambda>c. True)\<rparr>,
          Message 1 (Auth (Some ''alice''))),
       (\<lparr>db_ok = True, now = 2, new_id = ''m2'', is_open = (\<lambda>c. True)\<rparr>,
          Message 1 (Auth (Some ''alice''))),
       (\<lparr>db_ok = True, now = 3, new_id = ''m3'', is_open = (\<lambda>c. True)\<rparr>, Close 1)]
      \<lparr>connectedUsers = [(''bob'', 2)], users = [], messages = []\<rparr>))
     = [(2, ''alice''), (1, ''alice''), (2, ''alice''), (1, ''alice'')]
   \<and> user_offline_events (snd (run
      [(\<lparr>db_ok = True, now = 1, new_id = ''m1'', is_open = (\<lambda>c. True)\<rparr>,
          Message 1 (Auth (Some ''alice''))),
       (\<lparr>db_ok = True, now = 2, new_id = ''m2'', is_open = (\<lambda>c. True)\<rparr>,
          Message 1 (Auth (Some ''alice''))),
       (\<lparr>db_ok = True, now = 3, new_id = ''m3'', is_open = (\<lambda>c. True)\<rparr>, Close 1)]
      \<lparr>connectedUsers = [(''bob'', 2)], users = [], messages = []\<rparr>))
     = [(2, ''alice'')]"
  using presence_broadcast_per_handshake [of "''alice''"
      "[\<lparr>db_ok = True, now = 1, new_id = ''m1'', is_open = (\<lambda>c. True)\<rparr>,
        \<lparr>db_ok = True, now = 2, new_id = ''m2'', is_open = (\<lambda>c. True)\<rparr>]"
      "\<lparr>db_ok = True, now = 3, new_id = ''m3'', is_open = (\<lambda>c. True)\<rparr>"
      "\<lparr>connectedUsers = [(''bob'', 2)], users = [], messages = []\<rparr>" 1]
  by (simp add: presence_events_simps broadcastToAll_projections)

text \<open>
  Two handshakes for the same identity on one connection, then its close: a bound, open
  observer receives \<open>user_online\<close> twice, not once.
\<close>

theorem duplicate_handshake_counterexample:
  "count_list (user_online_events (snd (run
      [(\<lparr>db_ok = True, now = 1, new_id = ''m1'', is_open = (\<lambda>c. True)\<rparr>,
          Message 1 (Auth (Some ''alice''))),
       (\<lparr>db_ok = True, now = 2, new_id = ''m2'', is_open = (\<lambda>c. True)\<rparr>,
          Message 1 (Auth (Some ''alice''))),
       (\<lparr>db_ok = True, now = 3, new_id = ''m3'', is_open = (\<lambda>c. True)\<rparr>, Close 1)]
      \<lparr>connectedUsers = [(''bob'', 2)], users =
               [\<lparr>id_u = ''alice'', isOnline = Some False, lastSeen = None, updatedAt = None\<rparr>,
                \<lparr>id_u = ''bob'', isOnline = Some True, lastSeen = None, updatedAt = None\<rparr>], messages = []\<rparr>))) (2, ''alice'') = 2"
  by (simp add: on_auth_def on_close_def Let_def broadcastToAll_def
        updateUserOnlineStatus_def user_online_events_def)

subsection \<open>Events on a connection that has not authenticated\<close>

lemma send_if_open_sends:
  "sends (send_if_open opn r msg) = (case r of None \<Rightarrow> [] | Some c \<Rightarrow> if opn c then [(c, msg)] else [])"
  by (simp add: send_if_open_def split: option.splits)

lemma ignored_chat_message:
  "ignored s (on_chat_message e ws data s) \<longleftrightarrow>
     (\<forall>md. messageSchema_parse data = Inr md \<longrightarrow>
        \<not> (db_ok e \<and> ins_senderId md \<in> id_u ` set (users s)
             \<and> ins_receiverId md \<in> id_u ` set (users s)))"
proof (cases "messageSchema_parse data")
  case (Inl err)
  then show ?thesis by (simp add: on_chat_message_def ignored_def)
next
  case (Inr md)
  show ?thesis
  proof (cases "db_ok e \<and> references_users md (users s)")
    case True
    then have "db_ok e" and "ins_senderId md \<in> id_u ` set (users s)"
      and "ins_receiverId md \<in> id_u ` set (users s)"
      by (simp_all add: references_users_def)
    then show ?thesis
      using Inr on_chat_message_valid [OF Inr, of e s ws] by (simp add: ignored_def)
  next
    case False
    have "ignored s (on_chat_message e ws data s)"
      using on_chat_message_store_rejects [OF Inr False, of ws] by (simp add: ignored_def)
    then show ?thesis
      using Inr False by (auto simp: references_users_def)
  qed
qed

lemma ignored_update_last_seen:
  "ignored s (on_update_last_seen e uid s) \<longleftrightarrow> uid = None \<or> uid = Some [] \<or> \<not> db_ok e"
  by (cases uid) (simp_all add: on_update_last_seen_def ignored_def Let_def)

lemma ignored_typing:
  "ignored s (on_typing e sId rId isTyping s) \<longleftrightarrow>
     (\<nexists>r rws. rId = Some r \<and> map_of (connectedUsers s) r = Some rws \<and> is_open e rws)"
  by (cases rId) (auto simp: on_typing_def ignored_def send_if_open_sends send_if_open_def
        split: option.splits)

lemma on_update_last_seen_ok:
  assumes "u \<noteq> []" and "db_ok e"
  shows "on_update_last_seen e (Some u) s =
    (s\<lparr>users := updateUserOnlineStatus (now e) u True (users s)\<rparr>,
     StoreWrite (SetOnlineStatus u True) #
     broadcastToAll (is_open e) (connectedUsers s) (UserStatusUpdate u (now e) True))"
  using assms by (simp add: on_update_last_seen_def Let_def)

lemma on_typing_reachable:
  assumes "map_of (connectedUsers s) r = Some rws" and "is_open e rws"
  shows "on_typing e sId (Some r) isTyping s = (s, [Send rws (TypingEvent sId isTyping)])"
  using assms by (simp add: on_typing_def send_if_open_def)

text \<open>
  Claim C1, as the code has it. The handler keeps no authentication state for a
  connection: for every connection, one that has sent no handshake included, an inbound
  event whose type is not \<open>auth\<close> never changes the registry and is handled by its type
  alone. It is ignored (state unchanged, nothing sent, no store write) exactly when it
  is a chat message that fails validation or whose insert the store does not complete
  (the store is not reachable, or the sender or the receiver is no row of the users
  table), an \<open>update_last_seen\<close> with an absent or empty user id or whose write fails, a
  typing event whose receiver is not bound to an open connection, or a frame of unknown
  type or one that does not parse. Otherwise it is processed: a chat message is
  persisted as one new row, sent as \<open>new_message\<close> on the receiver's connection when
  that is bound and open and as \<open>message_sent\<close> on the connection it came from when
  that is open; an \<open>update_last_seen\<close> writes the user's rows online and broadcasts
  \<open>user_status_update\<close> to every open connection of the registry; a typing event is
  sent on the receiver's connection.
\<close>

theorem non_auth_event_handled_by_type:
  assumes "\<forall>uid. ev \<noteq> Auth uid"
  shows "connectedUsers (fst (on_message e ws ev s)) = connectedUsers s
    \<and> (ignored s (on_message e ws ev s) \<longleftrightarrow>
         (case ev of
            ChatMessage data \<Rightarrow>
              (\<forall>md. messageSchema_parse data = Inr md \<longrightarrow>
                 \<not> (db_ok e \<and> ins_senderId md \<in> id_u ` set (users s)
                      \<and> ins_receiverId md \<in> id_u ` set (users s)))
          | UpdateLastSeen uid \<Rightarrow> uid = None \<or> uid = Some [] \<or> \<not> db_ok e
          | Typing sId rId isTyping \<Rightarrow>
              (\<nexists>r rws. rId = Some r \<and> map_of (connectedUsers s) r = Some rws \<and> is_open e rws)
          | _ \<Rightarrow> True))
    \<and> (\<forall>data md. ev = ChatMessage data \<and> messageSchema_parse data = Inr md \<and> db_ok e
          \<and> ins_senderId md \<in> id_u ` set (users s)
          \<and> ins_receiverId md \<in> id_u ` set (users s) \<longrightarrow>
          on_message e ws ev s =
            (s\<lparr>messages := messages s @ [new_row (new_id e) (now e) md]\<rparr>,
             StoreWrite (InsertMessage (new_row (new_id e) (now e) md)) #
             send_if_open (is_open e) (map_of (connectedUsers s) (ins_receiverId md))
               (NewMessage (new_row (new_id e) (now e) md)) @
             send_if_open (is_open e) (Some ws) (MessageSent (new_row (new_id e) (now e) md))))
    \<and> (\<forall>u. ev = UpdateLastSeen (Some u) \<and> u \<noteq> [] \<and> db_ok e \<longrightarrow>
          on_message e ws ev s =
            (s\<lparr>users := updateUserOnlineStatus (now e) u True (users s)\<rparr>,
             StoreWrite (SetOnlineStatus u True) #
             broadcastToAll (is_open e) (connectedUsers s) (UserStatusUpdate u (now e) True)))
    \<and> (\<forall>sId r isTyping rws. ev = Typing sId (Some r) isTyping
          \<and> map_of (connectedUsers s) r = Some rws \<and> is_open e rws \<longrightarrow>
          on_message e ws ev s = (s, [Send rws (TypingEvent sId isTyping)]))"
proof -
  have 1: "connectedUsers (fst (on_message e ws ev s)) = connectedUsers s"
    using assms by (rule non_auth_registry)
  have 2: "ignored s (on_message e ws ev s) \<longleftrightarrow>
         (case ev of
            ChatMessage data \<Rightarrow>
              (\<forall>md. messageSchema_parse data = Inr md \<longrightarrow>
                 \<not> (db_ok e \<and> ins_senderId md \<in> id_u ` set (users s)
                      \<and> ins_receiverId md \<in> id_u ` set (users s)))
          | UpdateLastSeen uid \<Rightarrow> uid = None \<or> uid = Some [] \<or> \<not> db_ok e
          | Typing sId rId isTyping \<Rightarrow>
              (\<nexists>r rws. rId = Some r \<and> map_of (connectedUsers s) r = Some rws \<and> is_open e rws)
          | _ \<Rightarrow> True)"
  proof (cases ev)
    case Unparseable
    then show ?thesis by (simp add: ignored_def)
  next
    case (Auth uid)
    then show ?thesis using assms by simp
  next
    case (ChatMessage data)
    then show ?thesis by (simp only: on_message.simps inbound.case ignored_chat_message)
  next
    case (UpdateLastSeen uid)
    then show ?thesis by (simp add: ignored_update_last_seen)
  next
    case (Typing sId rId isTyping)
    then show ?thesis by (simp add: ignored_typing)
  next
    case Unknown
    then show ?thesis by (simp add: ignored_def)
  qed
  have 3: "\<forall>data md. ev = ChatMessage data \<and> messageSchema_parse data = Inr md \<and> db_ok e
          \<and> ins_senderId md \<in> id_u ` set (users s)
          \<and> ins_receiverId md \<in> id_u ` set (users s) \<longrightarrow>
          on_message e ws ev s =
            (s\<lparr>messages := messages s @ [new_row (new_id e) (now e) md]\<rparr>,
             StoreWrite (InsertMessage (new_row (new_id e) (now e) md)) #
             send_if_open (is_open e) (map_of (connectedUsers s) (ins_receiverId md))
               (NewMessage (new_row (new_id e) (now e) md)) @
             send_if_open (is_open e) (Some ws) (MessageSent (new_row (new_id e) (now e) md)))"
    using on_chat_message_valid [of _ _ e s ws] by auto
  have 4: "\<forall>u. ev = UpdateLastSeen (Some u) \<and> u \<noteq> [] \<and> db_ok e \<longrightarrow>
          on_message e ws ev s =
            (s\<lparr>users := updateUserOnlineStatus (now e) u True (users s)\<rparr>,
             StoreWrite (SetOnlineStatus u True) #
             broadcastToAll (is_open e) (connectedUsers s) (UserStatusUpdate u (now e) True))"
    using on_update_last_seen_ok [of _ e s] by auto
  have 5: "\<forall>sId r isTyping rws. ev = Typing sId (Some r) isTyping
          \<and> map_of (connectedUsers s) r = Some rws \<and> is_open e rws \<longrightarrow>
          on_message e ws ev s = (s, [Send rws (TypingEvent sId isTyping)])"
    using on_typing_reachable [of s _ _ e] by auto
  show ?thesis
    by (rule conjI [OF 1 conjI [OF 2 conjI [OF 3 conjI [OF 4 5]]]])
qed

theorem non_auth_event_handled_by_type_witness:
  "\<not> ignored
      \<lparr>connectedUsers = [(''bob'', 2)],
       users = [\<lparr>id_u = ''alice'', isOnline = Some False, lastSeen = None, updatedAt = None\<rparr>,
                \<lparr>id_u = ''bob'', isOnline = Some True, lastSeen = None, updatedAt = None\<rparr>],
       messages = []\<rparr>
      (on_message \<lparr>db_ok = True, now = 7, new_id = ''m1'', is_open = (\<lambda>c. True)\<rparr> 1
        (ChatMessage (Some \<lparr>raw_senderId = JStr ''alice'', raw_receiverId = JStr ''bob'',
           raw_content = JStr ''hi'', raw_messageType = JUndefined, raw_imageUrl = JUndefined\<rparr>))
        \<lparr>connectedUsers = [(''bob'', 2)],
         users = [\<lparr>id_u = ''alice'', isOnline = Some False, lastSeen = None, updatedAt = None\<rparr>,
                  \<lparr>id_u = ''bob'', isOnline = Some True, lastSeen = None, updatedAt = None\<rparr>],
         messages = []\<rparr>)
   \<and> ignored
      \<lparr>connectedUsers = [(''bob'', 2)],
       users = [\<lparr>id_u = ''alice'', isOnline = Some False, lastSeen = None, updatedAt = None\<rparr>,
                \<lparr>id_u = ''bob'', isOnline = Some True, lastSeen = None, updatedAt = None\<rparr>],
       messages = []\<rparr>
      (on_message \<lparr>db_ok = True, now = 7, new_id = ''m1'', is_open = (\<lambda>c. True)\<rparr> 1
        (ChatMessage (Some \<lparr>raw_senderId = JStr ''alice'', raw_receiverId = JStr ''bob'',
           raw_content = JStr [], raw_messageType = JUndefined, raw_imageUrl = JUndefined\<rparr>))
        \<lparr>connectedUsers = [(''bob'', 2)],
         users = [\<lparr>id_u = ''alice'', isOnline = Some False, lastSeen = None, updatedAt = None\<rparr>,
                  \<lparr>id_u = ''bob'', isOnline = Some True, lastSeen = None, updatedAt = None\<rparr>],
         messages = []\<rparr>)
   \<and> on_message \<lparr>db_ok = True, now = 7, new_id = ''m1'', is_open = (\<lambda>c. True)\<rparr> 1
        (UpdateLastSeen (Some ''alice''))
        \<lparr>connectedUsers = [(''bob'', 2)],
         users = [\<lparr>id_u = ''alice'', isOnline = Some False, lastSeen = None, updatedAt = None\<rparr>,
                  \<lparr>id_u = ''bob'', isOnline = Some True, lastSeen = None, updatedAt = None\<rparr>],
         messages = []\<rparr>
     = (\<lparr>connectedUsers = [(''bob'', 2)],
         users = [\<lparr>id_u = ''alice'', isOnline = Some True, lastSeen = Some 7, updatedAt = Some 7\<rparr>,
                  \<lparr>id_u = ''bob'', isOnline = Some True, lastSeen = None, updatedAt = None\<rparr>],
         messages = []\<rparr>,
        [StoreWrite (SetOnlineStatus ''alice'' True),
         Send 2 (UserStatusUpdate ''alice'' 7 True)])
   \<and> on_message \<lparr>db_ok = True, now = 7, new_id = ''m1'', is_open = (\<lambda>c. True)\<rparr> 1
        (Typing (Some ''alice'') (Some ''bob'') (Some True))
        \<lparr>connectedUsers = [(''bob'', 2)],
         users = [\<lparr>id_u = ''alice'', isOnline = Some False, lastSeen = None, updatedAt = None\<rparr>,
                  \<lparr>id_u = ''bob'', isOnline = Some True, lastSeen = None, updatedAt = None\<rparr>],
         messages = []\<rparr>
     = (\<lparr>connectedUsers = [(''bob'', 2)],
         users = [\<lparr>id_u = ''alice'', isOnline = Some False, lastSeen = None, updatedAt = None\<rparr>,
                  \<lparr>id_u = ''bob'', isOnline = Some True, lastSeen = None, updatedAt = None\<rparr>],
         messages = []\<rparr>,
        [Send 2 (TypingEvent (Some ''alice'') (Some True))])"
proof -
  let ?s = "\<lparr>connectedUsers = [(''bob'', 2)],
       users = [\<lparr>id_u = ''alice'', isOnline = Some False, lastSeen = None, updatedAt = None\<rparr>,
                \<lparr>id_u = ''bob'', isOnline = Some True, lastSeen = None, updatedAt = None\<rparr>],
       messages = []\<rparr>"
  let ?e = "\<lparr>db_ok = True, now = 7, new_id = ''m1'', is_open = (\<lambda>c. True)\<rparr>"
  let ?ok = "ChatMessage (Some \<lparr>raw_senderId = JStr ''alice'', raw_receiverId = JStr ''bob'',
           raw_content = JStr ''hi'', raw_messageType = JUndefined, raw_imageUrl = JUndefined\<rparr>)"
  let ?bad = "ChatMessage (Some \<lparr>raw_senderId = JStr ''alice'', raw_receiverId = JStr ''bob'',
           raw_content = JStr [], raw_messageType = JUndefined, raw_imageUrl = JUndefined\<rparr>)"
  have p: "messageSchema_parse (Some \<lparr>raw_senderId = JStr ''alice'', raw_receiverId = JStr ''bob'',
           raw_content = JStr ''hi'', raw_messageType = JUndefined, raw_imageUrl = JUndefined\<rparr>)
     = Inr \<lparr>ins_senderId = ''alice'', ins_receiverId = ''bob'', ins_content = ''hi'',
            ins_messageType = ''text'', ins_imageUrl = None\<rparr>"
    by (simp add: messageSchema_parse_def z_string_def z_content_def z_messageType_def
          z_imageUrl_def)
  have q: "messageSchema_parse (Some \<lparr>raw_senderId = JStr ''alice'', raw_receiverId = JStr ''bob'',
           raw_content = JStr [], raw_messageType = JUndefined, raw_imageUrl = JUndefined\<rparr>)
     = Inl (ValidationError [''content''])"
    by (simp add: messageSchema_parse_def messageSchema_issues_def issue_def z_string_def
          z_content_def z_messageType_def z_imageUrl_def)
  have n1: "\<forall>uid. ?ok \<noteq> Auth uid" by simp
  have n2: "\<forall>uid. ?bad \<noteq> Auth uid" by simp
  have n3: "\<forall>uid. UpdateLastSeen (Some ''alice'') \<noteq> Auth uid" by simp
  have n4: "\<forall>uid. Typing (Some ''alice'') (Some ''bob'') (Some True) \<noteq> Auth uid" by simp
  have a: "\<not> ignored ?s (on_message ?e 1 ?ok ?s)"
    using non_auth_event_handled_by_type [OF n1, of ?e 1 ?s, THEN conjunct2, THEN conjunct1]
    by (simp add: p)
  have b: "ignored ?s (on_message ?e 1 ?bad ?s)"
    using non_auth_event_handled_by_type [OF n2, of ?e 1 ?s, THEN conjunct2, THEN conjunct1]
    by (simp add: q)
  have c: "on_message ?e 1 (UpdateLastSeen (Some ''alice'')) ?s
     = (\<lparr>connectedUsers = [(''bob'', 2)],
         users = [\<lparr>id_u = ''alice'', isOnline = Some True, lastSeen = Some 7, updatedAt = Some 7\<rparr>,
                  \<lparr>id_u = ''bob'', isOnline = Some True, lastSeen = None, updatedAt = None\<rparr>],
         messages = []\<rparr>,
        [StoreWrite (SetOnlineStatus ''alice'' True),
         Send 2 (UserStatusUpdate ''alice'' 7 True)])"
    using non_auth_event_handled_by_type [OF n3, of ?e 1 ?s,
        THEN conjunct2, THEN conjunct2, THEN conjunct2, THEN conjunct1]
    by (simp add: updateUserOnlineStatus_def broadcastToAll_def)
  have d: "on_message ?e 1 (Typing (Some ''alice'') (Some ''bob'') (Some True)) ?s
     = (?s, [Send 2 (TypingEvent (Some ''alice'') (Some True))])"
    using non_auth_event_handled_by_type [OF n4, of ?e 1 ?s,
        THEN conjunct2, THEN conjunct2, THEN conjunct2, THEN conjunct2]
    by simp
  show ?thesis
    by (rule conjI [OF a conjI [OF b conjI [OF c d]]])
qed

text \<open>
  A chat message on a connection that never sent a handshake (the registry is empty) is
  persisted and confirmed to that connection.
\<close>

theorem unauthenticated_chat_message_counterexample:
  "on_message \<lparr>db_ok = True, now = 7, new_id = ''m1'', is_open = (\<lambda>c. True)\<rparr> 1
     (ChatMessage (Some \<lparr>raw_senderId = JStr ''alice'', raw_receiverId = JStr ''bob'',
        raw_content = JStr ''hi'', raw_messageType = JUndefined, raw_imageUrl = JUndefined\<rparr>))
     \<lparr>connectedUsers = [], users =
               [\<lparr>id_u = ''alice'', isOnline = Some False, lastSeen = None, updatedAt = None\<rparr>,
                \<lparr>id_u = ''bob'', isOnline = Some False, lastSeen = None, updatedAt = None\<rparr>], messages = []\<rparr>
   = (\<lparr>connectedUsers = [], users =
               [\<lparr>id_u = ''alice'', isOnline = Some False, lastSeen = None, updatedAt = None\<rparr>,
                \<lparr>id_u = ''bob'', isOnline = Some False, lastSeen = None, updatedAt = None\<rparr>],
       messages = [\<lparr>id_m = ''m1'', senderId = ''alice'', receiverId = ''bob'', content = ''hi'',
         messageType = Some ''text'', imageUrl = None, isRead = Some False,
         createdAt = Some 7\<rparr>]\<rparr>,
      [StoreWrite (InsertMessage \<lparr>id_m = ''m1'', senderId = ''alice'', receiverId = ''bob'',
         content = ''hi'', messageType = Some ''text'', imageUrl = None, isRead = Some False,
         createdAt = Some 7\<rparr>),
       Send 1 (MessageSent \<lparr>id_m = ''m1'', senderId = ''alice'', receiverId = ''bob'',
         content = ''hi'', messageType = Some ''text'', imageUrl = None, isRead = Some False,
         createdAt = Some 7\<rparr>)])"
  by (simp add: on_chat_message_def messageSchema_parse_def z_string_def z_content_def
        z_messageType_def z_imageUrl_def createMessage_def references_users_def new_row_def
        send_if_open_def Let_def)

end
